theory Spec2Isabelle
  imports Main "HOL-Library.Word" "HOL-Library.AList" "HOL-Library.Sublist"
begin

unbundle bit_operations_syntax

section \<open>Strings and JavaScript containers\<close>

text \<open>
  A JavaScript string is a sequence of UTF-16 code units; a Buffer is a sequence of bytes.
  \<open>js\<close> and \<open>ascii\<close> write ASCII literals of either kind.
\<close>

type_synonym code_unit = "16 word"
type_synonym jsstring = "code_unit list"
type_synonym byte = "8 word"
type_synonym buffer = "byte list"

definition js :: "string \<Rightarrow> jsstring" where
  "js s = map of_char s"

definition ascii :: "string \<Rightarrow> buffer" where
  "ascii s = map of_char s"

text \<open>
  A JavaScript \<open>Set\<close> keeps its members in insertion order without repetition:
  \<open>add\<close> of a member already present changes nothing.
\<close>

definition set_add :: "'a \<Rightarrow> 'a list \<Rightarrow> 'a list" where
  "set_add k ks = (if k \<in> set ks then ks else ks @ [k])"

definition set_has :: "'a list \<Rightarrow> 'a \<Rightarrow> bool" where
  "set_has ks k = (k \<in> set ks)"

definition set_clear :: "'a list \<Rightarrow> 'a list" where
  "set_clear ks = []"

section \<open>Expanded-state tracking (link-style extension)\<close>

text \<open>
  \<open>expandedKeys\<close> is a module-level \<open>Set<string>\<close>. The peek command
  adds a key; \<open>refreshAllOpenTextEditors\<close> asks \<open>expandedKeys.has(key)\<close>.
\<close>

definition markExpanded :: "jsstring \<Rightarrow> jsstring list \<Rightarrow> jsstring list" where
  "markExpanded key expandedKeys = set_add key expandedKeys"

definition isExpanded :: "jsstring list \<Rightarrow> jsstring \<Rightarrow> bool" where
  "isExpanded expandedKeys key = set_has expandedKeys key"

text \<open>
  The \<open>onDidChangeVisibleTextEditors\<close> handler. Its scan of the visible preview
  editors and the open text documents calls \<open>presentPreviewKeys.add\<close> once for
  every tag whose resolved target equals a visible preview's target; \<open>found\<close> is
  the sequence of keys of those calls. The handler then clears \<open>expandedKeys\<close>
  and adds every member of \<open>presentPreviewKeys\<close> to it.
\<close>

definition presentPreviewKeys :: "jsstring list \<Rightarrow> jsstring list" where
  "presentPreviewKeys found = fold set_add found []"

definition onDidChangeVisibleTextEditors :: "jsstring list \<Rightarrow> jsstring list \<Rightarrow> jsstring list" where
  "onDidChangeVisibleTextEditors found expandedKeys =
     fold set_add (presentPreviewKeys found) (set_clear expandedKeys)"

section \<open>File system and decoding (inline-style extension)\<close>

text \<open>
  The two file-system calls of the extension, \<open>fs.promises.stat\<close> and
  \<open>fs.promises.readFile\<close>, as the outcome each has for a path: \<open>None\<close> is a
  rejected promise (missing file, permission denied, a directory given to \<open>readFile\<close>,
  a file deleted between the two calls). \<open>mtimeMs\<close> is only ever compared with
  \<open>===\<close>.
\<close>

record stats =
  isFile :: bool
  isDirectory :: bool
  mtimeMs :: int

record filesystem =
  stat :: "jsstring \<Rightarrow> stats option"
  readFile :: "jsstring \<Rightarrow> buffer option"

text \<open>
  \<open>buf.subarray(begin, end)\<close>: a negative index counts from the end, and both
  indices are clamped to the buffer.
\<close>

definition relative_index :: "int \<Rightarrow> nat \<Rightarrow> nat" where
  "relative_index i len = (if i < 0 then nat (max (int len + i) 0) else min (nat i) len)"

definition subarray :: "buffer \<Rightarrow> int \<Rightarrow> int \<Rightarrow> buffer" where
  "subarray buf b e =
     (let bi = relative_index b (length buf); ei = relative_index e (length buf)
      in take (ei - bi) (drop bi buf))"

text \<open>
  \<open>buf.toString('utf8')\<close>: the decoder replaces every maximal ill-formed part by
  U+FFFD; a code point above U+FFFF becomes a surrogate pair.
\<close>

definition utf16 :: "nat \<Rightarrow> jsstring" where
  "utf16 cp =
     (if cp < 0x10000 then [of_nat cp]
      else [of_nat (0xD800 + (cp - 0x10000) div 0x400), of_nat (0xDC00 + (cp - 0x10000) mod 0x400)])"

fun utf8_decode :: "buffer \<Rightarrow> nat list"
  and utf8_continue :: "nat \<Rightarrow> nat \<Rightarrow> byte \<Rightarrow> byte \<Rightarrow> buffer \<Rightarrow> nat list" where
  "utf8_decode [] = []"
| "utf8_decode (b # bs) =
     (if b \<le> 0x7F then unat b # utf8_decode bs
      else if 0xC2 \<le> b \<and> b \<le> 0xDF then utf8_continue 1 (unat (b AND 0x1F)) 0x80 0xBF bs
      else if 0xE0 \<le> b \<and> b \<le> 0xEF then
        utf8_continue 2 (unat (b AND 0x0F))
          (if b = 0xE0 then 0xA0 else 0x80) (if b = 0xED then 0x9F else 0xBF) bs
      else if 0xF0 \<le> b \<and> b \<le> 0xF4 then
        utf8_continue 3 (unat (b AND 0x07))
          (if b = 0xF0 then 0x90 else 0x80) (if b = 0xF4 then 0x8F else 0xBF) bs
      else 0xFFFD # utf8_decode bs)"
| "utf8_continue needed cp lower upper [] = [0xFFFD]"
| "utf8_continue needed cp lower upper (b # bs) =
     (if lower \<le> b \<and> b \<le> upper then
        (let cp' = cp * 64 + unat (b AND 0x3F)
         in if needed \<le> 1 then cp' # utf8_decode bs
            else utf8_continue (needed - 1) cp' 0x80 0xBF bs)
      else 0xFFFD # utf8_decode (b # bs))"

definition toString_utf8 :: "buffer \<Rightarrow> jsstring" where
  "toString_utf8 buf = concat (map utf16 (utf8_decode buf))"

section \<open>Module state of the inline-style extension\<close>

text \<open>
  \<open>WATCHERS\<close> and \<open>CACHE\<close> are the two module-level \<open>Map\<close>s. \<open>WATCHERS\<close> is
  iterated, so it is an association list in insertion order (\<open>Map.set\<close> of a present key
  keeps its place); \<open>CACHE\<close> is only looked up, set and deleted. The remaining fields are
  the host's side: the handles it has given out for file-system watchers and decoration
  types, the handles \<open>dispose()\<close> was called on, the options of each decoration type and
  what \<open>setDecorations\<close> last put on each editor for each decoration type.
\<close>

record watch_info =
  watcher :: nat
  refs :: int

record cache_entry =
  cached_mtimeMs :: int
  cached_text :: jsstring

record decoration =
  range_start :: nat
  range_end :: nat
  hoverMessage :: "jsstring option"
  contentText :: "jsstring option"

record state =
  WATCHERS :: "(jsstring \<times> watch_info) list"
  CACHE :: "jsstring \<rightharpoonup> cache_entry"
  tagDecoInline :: nat
  tagDecoHide :: nat
  nextHandle :: nat
  disposed :: "nat list"
  afterColor :: "nat \<rightharpoonup> jsstring"
  decorations :: "nat \<times> nat \<rightharpoonup> decoration list"

subsection \<open>Existence check and cached, truncated read\<close>

definition pathExists :: "filesystem \<Rightarrow> jsstring \<Rightarrow> bool" where
  "pathExists fs p =
     (case stat fs p of
        None \<Rightarrow> False
      | Some st \<Rightarrow> isFile st \<or> isDirectory st)"

text \<open>
  \<open>cached && cached.mtimeMs === st.mtimeMs\<close>: the cached text when the entry is
  there and carries the current modification time.
\<close>

definition cacheLookup :: "(jsstring \<rightharpoonup> cache_entry) \<Rightarrow> jsstring \<Rightarrow> int \<Rightarrow> jsstring option" where
  "cacheLookup cache p mtime =
     (case cache p of
        None \<Rightarrow> None
      | Some cached \<Rightarrow> if cached_mtimeMs cached = mtime then Some (cached_text cached) else None)"

text \<open>
  \<open>if (maxBytes && buf.byteLength > maxBytes) buf = buf.subarray(0, maxBytes)\<close>:
  a limit of 0 is falsy and leaves the buffer whole.
\<close>

definition truncateBuffer :: "int \<Rightarrow> buffer \<Rightarrow> buffer" where
  "truncateBuffer maxBytes buf =
     (if maxBytes \<noteq> 0 \<and> int (length buf) > maxBytes then subarray buf 0 maxBytes else buf)"

text \<open>
  What truncation to a limit means, stated without the buffer API: a limit of 0 keeps the
  whole content, a positive limit keeps the first \<open>maxBytes\<close> bytes (all of them when the
  content is shorter), and a negative limit, which \<open>subarray\<close> counts from the end, drops the
  last \<open>-maxBytes\<close> bytes.
\<close>

definition firstBytes :: "int \<Rightarrow> buffer \<Rightarrow> buffer" where
  "firstBytes maxBytes buf =
     (if maxBytes = 0 then buf
      else if 0 < maxBytes then take (nat maxBytes) buf
      else take (nat (int (length buf) + maxBytes)) buf)"

definition readFileTruncated :: "filesystem \<Rightarrow> jsstring \<Rightarrow> int \<Rightarrow> state \<Rightarrow> jsstring \<times> state" where
  "readFileTruncated fs p maxBytes s =
     (case stat fs p of
        None \<Rightarrow> ([], s)
      | Some st \<Rightarrow>
          (case cacheLookup (CACHE s) p (mtimeMs st) of
             Some hit \<Rightarrow> (hit, s)
           | None \<Rightarrow>
               (case readFile fs p of
                  None \<Rightarrow> ([], s)
                | Some buf \<Rightarrow>
                    (let text = toString_utf8 (truncateBuffer maxBytes buf)
                     in (text, s\<lparr>CACHE := (CACHE s)(p \<mapsto>
                                   \<lparr>cached_mtimeMs = mtimeMs st, cached_text = text\<rparr>)\<rparr>)))))"

subsection \<open>Reference-counted watchers\<close>

text \<open>
  \<open>createFileSystemWatcher\<close> returns a new watcher, here the next free handle.
  The callback registered on it deletes the path's cache entry and starts a pass on the
  active editor; it is the step \<open>onAnyChange\<close> below.
\<close>

definition retainWatcher :: "jsstring \<Rightarrow> state \<Rightarrow> state" where
  "retainWatcher absPath s =
     (case map_of (WATCHERS s) absPath of
        Some existing \<Rightarrow>
          s\<lparr>WATCHERS := AList.update absPath (existing\<lparr>refs := refs existing + 1\<rparr>) (WATCHERS s)\<rparr>
      | None \<Rightarrow>
          s\<lparr>WATCHERS := AList.update absPath \<lparr>watcher = nextHandle s, refs = 1\<rparr> (WATCHERS s),
            nextHandle := nextHandle s + 1\<rparr>)"

definition releaseWatcher :: "jsstring \<Rightarrow> state \<Rightarrow> state" where
  "releaseWatcher absPath s =
     (case map_of (WATCHERS s) absPath of
        None \<Rightarrow> s
      | Some info \<Rightarrow>
          (let info' = info\<lparr>refs := refs info - 1\<rparr>
           in if refs info' \<le> 0
              then s\<lparr>disposed := disposed s @ [watcher info'],
                     WATCHERS := AList.delete absPath (WATCHERS s),
                     CACHE := (CACHE s)(absPath := None)\<rparr>
              else s\<lparr>WATCHERS := AList.update absPath info' (WATCHERS s)\<rparr>))"

definition onAnyChange :: "jsstring \<Rightarrow> state \<Rightarrow> state" where
  "onAnyChange absPath s = s\<lparr>CACHE := (CACHE s)(absPath := None)\<rparr>"

datatype watch_op = Retain jsstring | Release jsstring

fun watch_step :: "state \<Rightarrow> watch_op \<Rightarrow> state" where
  "watch_step s (Retain p) = retainWatcher p s"
| "watch_step s (Release p) = releaseWatcher p s"

text \<open>The invariant of the watch table: every stored count is at least 1.\<close>

definition watch_inv :: "state \<Rightarrow> bool" where
  "watch_inv s = list_all (\<lambda>(p, info). 1 \<le> refs info) (WATCHERS s)"

subsection \<open>Configuration and decoration types\<close>

text \<open>
  \<open>cfg.get(key)\<close> is \<open>None\<close> when it returns \<open>undefined\<close>.
  \<open>or_default\<close> is \<open>x || d\<close> on strings (the empty string is falsy) and
  \<open>nullish\<close> is \<open>x ?? d\<close>.
\<close>

record config =
  cfg_pattern :: "jsstring option"
  cfg_pathSeparator :: "jsstring option"
  cfg_onlyHighlightExistingPaths :: "bool option"
  cfg_showInline :: "bool option"
  cfg_showHover :: "bool option"
  cfg_maxBytes :: "int option"
  cfg_newlineJoiner :: "jsstring option"
  cfg_inlineColor :: "jsstring option"

definition or_default :: "jsstring option \<Rightarrow> jsstring \<Rightarrow> jsstring" where
  "or_default x d = (case x of None \<Rightarrow> d | Some v \<Rightarrow> if v = [] then d else v)"

definition nullish :: "'a option \<Rightarrow> 'a \<Rightarrow> 'a" where
  "nullish x d = (case x of None \<Rightarrow> d | Some v \<Rightarrow> v)"

definition createDecorations :: "config \<Rightarrow> state \<Rightarrow> state" where
  "createDecorations cfg s =
     s\<lparr>tagDecoInline := nextHandle s,
       tagDecoHide := nextHandle s + 1,
       nextHandle := nextHandle s + 2,
       afterColor := (afterColor s)(nextHandle s \<mapsto> or_default (cfg_inlineColor cfg) (js ''#888''))\<rparr>"

definition disposeDecorations :: "state \<Rightarrow> state" where
  "disposeDecorations s = s\<lparr>disposed := disposed s @ [tagDecoInline s, tagDecoHide s]\<rparr>"

text \<open>
  The configuration handler: nothing when the change does not affect
  \<open>tagHighlighter\<close>; otherwise the decoration types are disposed and recreated, and
  a debounced pass over the visible plaintext editors is scheduled.
\<close>

definition onDidChangeConfiguration :: "bool \<Rightarrow> config \<Rightarrow> state \<Rightarrow> state" where
  "onDidChangeConfiguration affects cfg s =
     (if \<not> affects then s else createDecorations cfg (disposeDecorations s))"

text \<open>
  \<open>activate\<close> creates the decoration types before any pass runs; the module's maps
  start empty.
\<close>

definition activate :: "config \<Rightarrow> state" where
  "activate cfg =
     createDecorations cfg
       \<lparr>WATCHERS = [], CACHE = Map.empty, tagDecoInline = 0, tagDecoHide = 0, nextHandle = 0,
        disposed = [], afterColor = Map.empty, decorations = Map.empty\<rparr>"

text \<open>\<open>Math.max(0, cfg.get('maxBytes') ?? 8192)\<close>, as both entry points compute it.\<close>

definition configuredMaxBytes :: "config \<Rightarrow> int" where
  "configuredMaxBytes cfg = max 0 (nullish (cfg_maxBytes cfg) 8192)"

definition default_config :: config where
  "default_config =
     \<lparr>cfg_pattern = None, cfg_pathSeparator = None, cfg_onlyHighlightExistingPaths = None,
      cfg_showInline = None, cfg_showHover = None, cfg_maxBytes = None,
      cfg_newlineJoiner = None, cfg_inlineColor = None\<rparr>"

section \<open>Path resolution\<close>

text \<open>
  \<open>String.prototype.split\<close> with a string separator: the separator's occurrences are
  found left to right without overlap; the empty separator splits into code units.
  \<open>split_slashes\<close> is \<open>split(/[\/\\]/)\<close>.
\<close>

fun split_from :: "'a list \<Rightarrow> 'a list \<Rightarrow> 'a list \<Rightarrow> 'a list list" where
  "split_from sep cur [] = [rev cur]"
| "split_from sep cur (c # cs) =
     (if prefix sep (c # cs) then rev cur # split_from sep [] (drop (length sep - 1) cs)
      else split_from sep (c # cur) cs)"

definition split :: "'a list \<Rightarrow> 'a list \<Rightarrow> 'a list list" where
  "split sep str = (if sep = [] then map (\<lambda>c. [c]) str else split_from sep [] str)"

definition isSlash :: "code_unit \<Rightarrow> bool" where
  "isSlash c = (c = 0x2F \<or> c = 0x5C)"

fun split_slashes_from :: "jsstring \<Rightarrow> jsstring \<Rightarrow> jsstring list" where
  "split_slashes_from cur [] = [rev cur]"
| "split_slashes_from cur (c # cs) =
     (if isSlash c then rev cur # split_slashes_from [] cs else split_slashes_from (c # cur) cs)"

definition split_slashes :: "jsstring \<Rightarrow> jsstring list" where
  "split_slashes str = split_slashes_from [] str"

text \<open>
  \<open>path.join\<close> and \<open>path.normalize\<close> of a POSIX host. \<open>normalizeString\<close> walks
  the segments between slashes: empty segments and \<open>.\<close> are dropped, \<open>..\<close> removes
  the segment before it, and is kept only in a relative path with nothing left to remove.
\<close>

fun join_with :: "'a list \<Rightarrow> 'a list list \<Rightarrow> 'a list" where
  "join_with sep [] = []"
| "join_with sep [x] = x"
| "join_with sep (x # y # ys) = x @ sep @ join_with sep (y # ys)"

fun split_on_slash_from :: "jsstring \<Rightarrow> jsstring \<Rightarrow> jsstring list" where
  "split_on_slash_from cur [] = [rev cur]"
| "split_on_slash_from cur (c # cs) =
     (if c = 0x2F then rev cur # split_on_slash_from [] cs else split_on_slash_from (c # cur) cs)"

definition normalize_step :: "bool \<Rightarrow> jsstring \<Rightarrow> jsstring list \<Rightarrow> jsstring list" where
  "normalize_step allowAboveRoot seg res =
     (if seg = [] \<or> seg = js ''.'' then res
      else if seg = js ''..'' then
        (case res of
           [] \<Rightarrow> if allowAboveRoot then [js ''..''] else []
         | r # rs \<Rightarrow> if r = js ''..'' then (if allowAboveRoot then js ''..'' # res else res) else rs)
      else seg # res)"

definition normalizeString :: "jsstring \<Rightarrow> bool \<Rightarrow> jsstring" where
  "normalizeString path allowAboveRoot =
     join_with (js ''/'') (rev (fold (normalize_step allowAboveRoot) (split_on_slash_from [] path) []))"

definition path_normalize :: "jsstring \<Rightarrow> jsstring" where
  "path_normalize path =
     (if path = [] then js ''.''
      else
        (let isAbsolute = (hd path = 0x2F);
             trailingSeparator = (last path = 0x2F);
             res = normalizeString path (\<not> isAbsolute)
         in if res = [] then (if isAbsolute then js ''/'' else if trailingSeparator then js ''./'' else js ''.'')
            else (if isAbsolute then js ''/'' else []) @ res @ (if trailingSeparator then js ''/'' else [])))"

definition path_join :: "jsstring list \<Rightarrow> jsstring" where
  "path_join args =
     (let given = filter (\<lambda>arg. arg \<noteq> []) args
      in if given = [] then js ''.'' else path_normalize (join_with (js ''/'') given))"

text \<open>
  \<open>toAbsolute\<close>: split the tag's inner text at the configured separator, split every
  piece at slashes and backslashes, drop the empty pieces, join onto the base directory.
\<close>

definition tagParts :: "jsstring \<Rightarrow> jsstring \<Rightarrow> jsstring list" where
  "tagParts tagInner sep =
     filter (\<lambda>p. p \<noteq> []) (concat (map split_slashes (split sep tagInner)))"

definition toAbsolute :: "jsstring \<Rightarrow> jsstring \<Rightarrow> jsstring \<Rightarrow> jsstring" where
  "toAbsolute baseDir tagInner sep = path_normalize (path_join (baseDir # tagParts tagInner sep))"












section \<open>Matching tags\<close>

text \<open>
  A compiled \<open>RegExp\<close> with the \<open>g\<close> flag, as what its search does: for a string
  and a start index it gives the index and the end index of the first match at or after
  the start, or \<open>None\<close>. \<open>exec\<close> is \<open>RegExp.prototype.exec\<close> on top of it and
  returns the match together with the new \<open>lastIndex\<close>: a start beyond the string's end
  fails, a failure resets \<open>lastIndex\<close> to 0, a match sets it to the match's end.
  \<open>regexp_ok\<close> is what the language guarantees of every search: the match lies
  between the start index and the string's end.
\<close>

type_synonym regexp = "jsstring \<Rightarrow> nat \<Rightarrow> (nat \<times> nat) option"

definition exec :: "regexp \<Rightarrow> jsstring \<Rightarrow> nat \<Rightarrow> (nat \<times> nat) option \<times> nat" where
  "exec re str lastIndex =
     (if lastIndex > length str then (None, 0)
      else (case re str lastIndex of
              None \<Rightarrow> (None, 0)
            | Some (index, e) \<Rightarrow> (Some (index, e), e)))"

definition regexp_ok :: "regexp \<Rightarrow> bool" where
  "regexp_ok re =
     (\<forall>str i index e. i \<le> length str \<and> re str i = Some (index, e)
        \<longrightarrow> i \<le> index \<and> index \<le> e \<and> e \<le> length str)"

text \<open>
  A pattern without look-behind is given by what it matches at the head of a string (the
  length of the match there); the search tries every position from the start index on.
\<close>

fun search :: "(jsstring \<Rightarrow> nat option) \<Rightarrow> nat \<Rightarrow> jsstring \<Rightarrow> (nat \<times> nat) option" where
  "search matchHere i [] =
     (case matchHere [] of None \<Rightarrow> None | Some n \<Rightarrow> Some (i, i + n))"
| "search matchHere i (c # cs) =
     (case matchHere (c # cs) of
        None \<Rightarrow> search matchHere (i + 1) cs
      | Some n \<Rightarrow> Some (i, i + n))"

definition regexp_of :: "(jsstring \<Rightarrow> nat option) \<Rightarrow> regexp" where
  "regexp_of matchHere str i = search matchHere i (drop i str)"

text \<open>
  The built-in pattern \<open>/<<[A-Za-z0-9._\-/:\\]+?>>/g\<close>. No character of the class
  is \<open>>\<close>, so the lazy repetition can only stop at the end of the run of class
  characters that follows \<open><<\<close>.
\<close>

definition tagChar :: "code_unit \<Rightarrow> bool" where
  "tagChar c =
     ((0x41 \<le> c \<and> c \<le> 0x5A) \<or> (0x61 \<le> c \<and> c \<le> 0x7A) \<or> (0x30 \<le> c \<and> c \<le> 0x39)
      \<or> c = 0x2E \<or> c = 0x5F \<or> c = 0x2D \<or> c = 0x2F \<or> c = 0x3A \<or> c = 0x5C)"

definition default_tag_here :: "jsstring \<Rightarrow> nat option" where
  "default_tag_here str =
     (if prefix (js ''<<'') str
      then (let body = takeWhile tagChar (drop 2 str); rest = dropWhile tagChar (drop 2 str)
            in if body \<noteq> [] \<and> prefix (js ''>>'') rest then Some (length body + 4) else None)
      else None)"

definition default_tag_regexp :: regexp where
  "default_tag_regexp = regexp_of default_tag_here"

definition default_pattern_source :: jsstring where
  "default_pattern_source = js ''<<[A-Za-z0-9._'' @ [0x5C] @ js ''-/:'' @ [0x5C, 0x5C] @ js '']+?>>''"

text \<open>The pattern \<open>/x*/g\<close> for a code unit \<open>x\<close>: a user pattern that matches the empty string.\<close>

definition star_here :: "code_unit \<Rightarrow> jsstring \<Rightarrow> nat option" where
  "star_here x str = Some (length (takeWhile (\<lambda>c. c = x) str))"

text \<open>
  \<open>safeRegex\<close>: \<open>compile\<close> is \<open>new RegExp(src, 'g')\<close>, \<open>None\<close> when it throws.
\<close>

definition safeRegex :: "(jsstring \<Rightarrow> regexp option) \<Rightarrow> jsstring \<Rightarrow> regexp" where
  "safeRegex compile src = (case compile src of Some re \<Rightarrow> re | None \<Rightarrow> default_tag_regexp)"

text \<open>\<open>String.prototype.slice(begin, end)\<close>, with the index rules of \<open>subarray\<close>.\<close>

definition slice :: "jsstring \<Rightarrow> int \<Rightarrow> int \<Rightarrow> jsstring" where
  "slice str b e =
     (let bi = relative_index b (length str); ei = relative_index e (length str)
      in take (ei - bi) (drop bi str))"

text \<open>
  The match loop of \<open>updateDecorations\<close>. A match's range is kept as its two offsets
  (the source turns each into a position with \<open>positionAt\<close>). After a match whose index
  equals the new \<open>lastIndex\<close> the loop moves \<open>lastIndex\<close> one further.
\<close>

record tag_match =
  startOffset :: nat
  endOffset :: nat
  inner :: jsstring
  absPath :: jsstring

definition advance :: "nat \<Rightarrow> nat \<Rightarrow> nat" where
  "advance index lastIndex = (if index = lastIndex then lastIndex + 1 else lastIndex)"

partial_function (option) matchLoop ::
  "regexp \<Rightarrow> jsstring \<Rightarrow> jsstring \<Rightarrow> jsstring \<Rightarrow> nat \<Rightarrow> tag_match list option" where
  [code]: "matchLoop pattern baseDir sep text lastIndex =
     (case exec pattern text lastIndex of
        (None, _) \<Rightarrow> Some []
      | (Some (index, e), lastIndex') \<Rightarrow>
          (let full = take (e - index) (drop index text);
               inner = slice full 2 (- 2);
               m = \<lparr>startOffset = index, endOffset = index + length full, inner = inner,
                    absPath = toAbsolute baseDir inner sep\<rparr>
           in Option.bind (matchLoop pattern baseDir sep text (advance index lastIndex'))
                (\<lambda>rest. Some (m # rest))))"

section \<open>A pass of \<open>updateDecorations\<close>\<close>

text \<open>
  \<open>text.replace(/\r?\n/g, joiner)\<close>. In the replacement string \<open>$$\<close> stands for
  \<open>$\<close>, \<open>$&\<close> for the matched text, \<open>$`\<close> for the text before the match and
  \<open>$'\<close> for the text after it; the pattern has no groups, so every other \<open>$\<close> is
  literal.
\<close>

fun expandReplacement :: "jsstring \<Rightarrow> jsstring \<Rightarrow> jsstring \<Rightarrow> jsstring \<Rightarrow> jsstring" where
  "expandReplacement [] matched preceding following = []"
| "expandReplacement [c] matched preceding following = [c]"
| "expandReplacement (c # d # r) matched preceding following =
     (if c = 0x24 \<and> d = 0x24 then 0x24 # expandReplacement r matched preceding following
      else if c = 0x24 \<and> d = 0x26 then matched @ expandReplacement r matched preceding following
      else if c = 0x24 \<and> d = 0x60 then preceding @ expandReplacement r matched preceding following
      else if c = 0x24 \<and> d = 0x27 then following @ expandReplacement r matched preceding following
      else c # expandReplacement (d # r) matched preceding following)"

fun replaceNewlines_from :: "jsstring \<Rightarrow> jsstring \<Rightarrow> jsstring \<Rightarrow> jsstring" where
  "replaceNewlines_from joiner preceding [] = []"
| "replaceNewlines_from joiner preceding [c] =
     (if c = 0x0A then expandReplacement joiner [0x0A] preceding [] else [c])"
| "replaceNewlines_from joiner preceding (c # d # r) =
     (if c = 0x0D \<and> d = 0x0A then
        expandReplacement joiner [0x0D, 0x0A] preceding r
          @ replaceNewlines_from joiner (preceding @ [0x0D, 0x0A]) r
      else if c = 0x0A then
        expandReplacement joiner [0x0A] preceding (d # r)
          @ replaceNewlines_from joiner (preceding @ [c]) (d # r)
      else c # replaceNewlines_from joiner (preceding @ [c]) (d # r))"

definition replaceNewlines :: "jsstring \<Rightarrow> jsstring \<Rightarrow> jsstring" where
  "replaceNewlines text joiner = replaceNewlines_from joiner [] text"

definition default_joiner :: jsstring where
  "default_joiner = [0x20, 0xE2, 0x2020, 0xA9, 0x20]"

text \<open>
  What a pass collects: the set \<open>needed\<close> and the two decoration arrays.
  \<open>decorate\<close> is the callback that \<open>Promise.all\<close> runs for one match, from its
  first line to its last, with its awaited calls answered by one file system and no other
  code running in between.
\<close>

record pass_acc =
  needed :: "jsstring list"
  inlineDecos :: "decoration list"
  hideDecos :: "decoration list"

definition decorate :: "filesystem \<Rightarrow> config \<Rightarrow> tag_match \<Rightarrow> pass_acc \<times> state \<Rightarrow> pass_acc \<times> state" where
  "decorate fs cfg it as =
     (let acc = fst as; s = snd as;
          onlyExisting = nullish (cfg_onlyHighlightExistingPaths cfg) True;
          showInline = nullish (cfg_showInline cfg) True;
          showHover = nullish (cfg_showHover cfg) True;
          maxBytes = configuredMaxBytes cfg;
          joiner = or_default (cfg_newlineJoiner cfg) default_joiner;
          exists = pathExists fs (absPath it)
      in if onlyExisting \<and> \<not> exists then (acc, s)
         else
           (let acc1 = (if exists then acc\<lparr>needed := set_add (absPath it) (needed acc)\<rparr> else acc);
                s1 = (if exists then retainWatcher (absPath it) s else s);
                rd = (if exists then readFileTruncated fs (absPath it) maxBytes s1 else ([], s1));
                text = fst rd;
                s2 = snd rd;
                hover = (if showHover
                         then Some (if exists then js ''```text'' @ [0x0A] @ text @ [0x0A] @ js ''```''
                                    else js ''_Path not found_'')
                         else None)
            in if showInline then
                 (acc1\<lparr>inlineDecos := inlineDecos acc1 @
                          [\<lparr>range_start = startOffset it, range_end = endOffset it,
                            hoverMessage = hover,
                            contentText = Some (if exists then replaceNewlines text joiner
                                                else js ''(missing)'')\<rparr>],
                        hideDecos := hideDecos acc1 @
                          [\<lparr>range_start = startOffset it, range_end = endOffset it,
                            hoverMessage = hover, contentText = None\<rparr>]\<rparr>, s2)
               else if showHover then
                 (acc1\<lparr>inlineDecos := inlineDecos acc1 @
                          [\<lparr>range_start = startOffset it, range_end = endOffset it,
                            hoverMessage = hover, contentText = None\<rparr>]\<rparr>, s2)
               else (acc1, s2)))"

text \<open>
  The end of a pass: both decoration arrays are put on the editor, then every watched
  path that this pass did not need is released.
\<close>

definition setDecorations :: "nat \<Rightarrow> nat \<Rightarrow> decoration list \<Rightarrow> state \<Rightarrow> state" where
  "setDecorations editor decoType decos s =
     s\<lparr>decorations := (decorations s)((editor, decoType) \<mapsto> decos)\<rparr>"

definition releaseUnneeded :: "jsstring list \<Rightarrow> state \<Rightarrow> state" where
  "releaseUnneeded wanted s =
     fold (\<lambda>p s'. if set_has wanted p then s' else releaseWatcher p s') (map fst (WATCHERS s)) s"

definition applyPlan :: "nat \<Rightarrow> pass_acc \<Rightarrow> state \<Rightarrow> state" where
  "applyPlan editor acc s =
     releaseUnneeded (needed acc)
       (setDecorations editor (tagDecoHide s) (hideDecos acc)
          (setDecorations editor (tagDecoInline s) (inlineDecos acc) s))"

text \<open>
  The synchronous start of a pass: \<open>updateDecorations\<close> reads the configuration and the
  document's text and collects the matches, up to \<open>await Promise.all\<close>.
\<close>

record pass =
  pass_editor :: nat
  pass_cfg :: config
  pass_matches :: "tag_match list"

definition updateDecorations_begin ::
  "(jsstring \<Rightarrow> regexp option) \<Rightarrow> config \<Rightarrow> nat \<Rightarrow> jsstring \<Rightarrow> jsstring \<Rightarrow> pass option" where
  "updateDecorations_begin compile cfg editor baseDir text =
     (let pattern = safeRegex compile (or_default (cfg_pattern cfg) default_pattern_source);
          sep = or_default (cfg_pathSeparator cfg) (js '':'')
      in Option.bind (matchLoop pattern baseDir sep text 0)
           (\<lambda>matches. Some \<lparr>pass_editor = editor, pass_cfg = cfg, pass_matches = matches\<rparr>))"

definition emptyAcc :: pass_acc where
  "emptyAcc = \<lparr>needed = [], inlineDecos = [], hideDecos = []\<rparr>"

text \<open>
  The callback one suspension at a time. A callback that has not returned is suspended at
  one of its awaits: on \<open>pathExists\<close>, inside \<open>readFileTruncated\<close> on \<open>stat\<close> or on
  \<open>readFile\<close> (the modification time that \<open>stat\<close> gave is kept for \<open>CACHE.set\<close>), or on
  \<open>readFileTruncated\<close> itself, which has returned its text. \<open>resume\<close> runs it from one
  await to the next, with the file system that answers the awaited call and the module
  state of that moment; between two resumptions any other code can run. A tag whose
  target is missing is pushed on the first resumption, an existing one on the fourth:
  the arrays are filled in the order in which the callbacks finish.
\<close>

datatype callback = AwaitExists | AwaitStat | AwaitRead int | AwaitText jsstring | Settled

definition pushDecorations :: "config \<Rightarrow> tag_match \<Rightarrow> bool \<Rightarrow> jsstring \<Rightarrow> pass_acc \<Rightarrow> pass_acc" where
  "pushDecorations cfg it exists text acc =
     (let showInline = nullish (cfg_showInline cfg) True;
          showHover = nullish (cfg_showHover cfg) True;
          joiner = or_default (cfg_newlineJoiner cfg) default_joiner;
          hover = (if showHover
                   then Some (if exists then js ''```text'' @ [0x0A] @ text @ [0x0A] @ js ''```''
                              else js ''_Path not found_'')
                   else None)
      in if showInline then
           acc\<lparr>inlineDecos := inlineDecos acc @
                  [\<lparr>range_start = startOffset it, range_end = endOffset it,
                    hoverMessage = hover,
                    contentText = Some (if exists then replaceNewlines text joiner
                                        else js ''(missing)'')\<rparr>],
               hideDecos := hideDecos acc @
                  [\<lparr>range_start = startOffset it, range_end = endOffset it,
                    hoverMessage = hover, contentText = None\<rparr>]\<rparr>
         else if showHover then
           acc\<lparr>inlineDecos := inlineDecos acc @
                  [\<lparr>range_start = startOffset it, range_end = endOffset it,
                    hoverMessage = hover, contentText = None\<rparr>]\<rparr>
         else acc)"

definition resume ::
  "filesystem \<Rightarrow> config \<Rightarrow> tag_match \<Rightarrow> callback \<Rightarrow> pass_acc \<times> state
     \<Rightarrow> callback \<times> pass_acc \<times> state" where
  "resume fs cfg it cb as =
     (let acc = fst as; s = snd as
      in case cb of
           AwaitExists \<Rightarrow>
             (let exists = pathExists fs (absPath it)
              in if nullish (cfg_onlyHighlightExistingPaths cfg) True \<and> \<not> exists
                 then (Settled, acc, s)
                 else if exists
                 then (AwaitStat, acc\<lparr>needed := set_add (absPath it) (needed acc)\<rparr>,
                       retainWatcher (absPath it) s)
                 else (Settled, pushDecorations cfg it False [] acc, s))
         | AwaitStat \<Rightarrow>
             (case stat fs (absPath it) of
                None \<Rightarrow> (AwaitText [], acc, s)
              | Some st \<Rightarrow>
                  (case cacheLookup (CACHE s) (absPath it) (mtimeMs st) of
                     Some hit \<Rightarrow> (AwaitText hit, acc, s)
                   | None \<Rightarrow> (AwaitRead (mtimeMs st), acc, s)))
         | AwaitRead mtime \<Rightarrow>
             (case readFile fs (absPath it) of
                None \<Rightarrow> (AwaitText [], acc, s)
              | Some buf \<Rightarrow>
                  (let text = toString_utf8 (truncateBuffer (configuredMaxBytes cfg) buf)
                   in (AwaitText text, acc,
                       s\<lparr>CACHE := (CACHE s)(absPath it \<mapsto>
                                      \<lparr>cached_mtimeMs = mtime, cached_text = text\<rparr>)\<rparr>)))
         | AwaitText text \<Rightarrow> (Settled, pushDecorations cfg it True text acc, s)
         | Settled \<Rightarrow> (Settled, acc, s))"

text \<open>
  A pass that has started: its matches, where each callback stands, the pass's own
  \<open>needed\<close>, \<open>inlineDecos\<close> and \<open>hideDecos\<close>, and whether the code after
  \<open>await Promise.all\<close> has run. \<open>startPass\<close> is the state at the first suspension: every
  callback has called \<open>pathExists\<close>. \<open>applyPass\<close> is the code after the
  \<open>await\<close>, which runs once every callback has returned.
\<close>

record running =
  run_pass :: pass
  run_callbacks :: "callback list"
  run_acc :: pass_acc
  run_applied :: bool

definition startPass :: "pass \<Rightarrow> running" where
  "startPass ps =
     \<lparr>run_pass = ps, run_callbacks = map (\<lambda>it. AwaitExists) (pass_matches ps),
      run_acc = emptyAcc, run_applied = False\<rparr>"

definition resumeCallback :: "filesystem \<Rightarrow> nat \<Rightarrow> running \<times> state \<Rightarrow> running \<times> state" where
  "resumeCallback fs i rs =
     (let r = fst rs; s = snd rs
      in if i < length (run_callbacks r) \<and> i < length (pass_matches (run_pass r)) then
           (let res = resume fs (pass_cfg (run_pass r)) (pass_matches (run_pass r) ! i)
                        (run_callbacks r ! i) (run_acc r, s)
            in (r\<lparr>run_callbacks := (run_callbacks r)[i := fst res], run_acc := fst (snd res)\<rparr>,
                snd (snd res)))
         else (r, s))"

definition ready :: "running \<Rightarrow> bool" where
  "ready r = (list_all (\<lambda>cb. cb = Settled) (run_callbacks r) \<and> \<not> run_applied r)"

definition applyPass :: "running \<times> state \<Rightarrow> running \<times> state" where
  "applyPass rs =
     ((fst rs)\<lparr>run_applied := True\<rparr>,
      applyPlan (pass_editor (run_pass (fst rs))) (run_acc (fst rs)) (snd rs))"

text \<open>
  The extension as a whole: the module state and the passes started so far, in the order
  in which they started. An event is one uninterrupted piece of code: the synchronous
  start of a pass (\<open>updateDecorations\<close> is called with the configuration and the
  editor's text of that moment), the resumption of callback \<open>i\<close> of pass \<open>k\<close> by the
  file system of that moment, the code after \<open>await Promise.all\<close> of pass \<open>k\<close>, the
  configuration handler, and the callback of a watcher. Nothing in a pass refers to
  another pass. A step is \<open>None\<close> when the match loop of a starting pass does not return.
\<close>

record system =
  sys_state :: state
  sys_passes :: "running list"

datatype event =
    Begin config nat jsstring jsstring
  | Resume nat nat filesystem
  | Apply nat
  | Configure bool config
  | FileChanged jsstring


definition start :: "config \<Rightarrow> system" where
  "start cfg = \<lparr>sys_state = activate cfg, sys_passes = []\<rparr>"

fun sys_step :: "(jsstring \<Rightarrow> regexp option) \<Rightarrow> event \<Rightarrow> system \<Rightarrow> system option" where
  "sys_step compile (Begin cfg editor baseDir text) sys =
     Option.bind (updateDecorations_begin compile cfg editor baseDir text)
       (\<lambda>ps. Some (sys\<lparr>sys_passes := sys_passes sys @ [startPass ps]\<rparr>))"
| "sys_step compile (Resume k i fs) sys =
     Some (if k < length (sys_passes sys) then
             (let rs = resumeCallback fs i (sys_passes sys ! k, sys_state sys)
              in sys\<lparr>sys_state := snd rs, sys_passes := (sys_passes sys)[k := fst rs]\<rparr>)
           else sys)"
| "sys_step compile (Apply k) sys =
     Some (if k < length (sys_passes sys) \<and> ready (sys_passes sys ! k) then
             (let rs = applyPass (sys_passes sys ! k, sys_state sys)
              in sys\<lparr>sys_state := snd rs, sys_passes := (sys_passes sys)[k := fst rs]\<rparr>)
           else sys)"
| "sys_step compile (Configure affects cfg) sys =
     Some (sys\<lparr>sys_state := onDidChangeConfiguration affects cfg (sys_state sys)\<rparr>)"
| "sys_step compile (FileChanged p) sys =
     Some (if map_of (WATCHERS (sys_state sys)) p = None then sys
           else sys\<lparr>sys_state := onAnyChange p (sys_state sys)\<rparr>)"

fun sys_run :: "(jsstring \<Rightarrow> regexp option) \<Rightarrow> event list \<Rightarrow> system \<Rightarrow> system option" where
  "sys_run compile [] sys = Some sys"
| "sys_run compile (ev # evs) sys = Option.bind (sys_step compile ev sys) (sys_run compile evs)"

section \<open>Predicates on occurrences and patterns\<close>

text \<open>
  \<open>ordered\<close>: every occurrence starts strictly before, and ends no later than, the start
  of each later one. \<open>never_empty\<close>: the pattern has no match of length zero.
\<close>

definition ordered :: "tag_match list \<Rightarrow> bool" where
  "ordered ms = sorted_wrt (\<lambda>a c. startOffset a < startOffset c \<and> endOffset a \<le> startOffset c) ms"

definition never_empty :: "regexp \<Rightarrow> bool" where
  "never_empty re = (\<forall>str i index e. re str i = Some (index, e) \<longrightarrow> index < e)"

section \<open>Completion of passes\<close>

text \<open>
  \<open>same_rendering\<close>: two states agree on the decoration types and on what every editor
  shows.
\<close>

definition same_rendering :: "state \<Rightarrow> state \<Rightarrow> bool" where
  "same_rendering s s' =
     (tagDecoInline s' = tagDecoInline s \<and> tagDecoHide s' = tagDecoHide s
      \<and> decorations s' = decorations s)"




section \<open>Concrete environments\<close>

text \<open>
  A file system given by a table of paths, each with its \<open>stat\<close> result and, when the
  path can be read, its bytes; a path outside the table does not exist.
\<close>

definition fs_of :: "(jsstring \<times> stats \<times> buffer option) list \<Rightarrow> filesystem" where
  "fs_of table =
     \<lparr>stat = (\<lambda>p. map_option fst (map_of table p)),
      readFile = (\<lambda>p. Option.bind (map_of table p) snd)\<rparr>"

definition regular :: "int \<Rightarrow> stats" where
  "regular mtime = \<lparr>isFile = True, isDirectory = False, mtimeMs = mtime\<rparr>"

definition directory :: "int \<Rightarrow> stats" where
  "directory mtime = \<lparr>isFile = False, isDirectory = True, mtimeMs = mtime\<rparr>"

text \<open>One file \<open>/w/a\<close>, first holding \<open>Hello\<close>, later rewritten to \<open>Bye\<close>.\<close>

definition hello_fs :: filesystem where
  "hello_fs = fs_of [(js ''/w/a'', regular 1, Some (ascii ''Hello''))]"

definition bye_fs :: filesystem where
  "bye_fs = fs_of [(js ''/w/a'', regular 2, Some (ascii ''Bye''))]"

text \<open>The same file rewritten to \<open>Bye\<close> with its modification time kept at 1.\<close>

definition rewritten_fs :: filesystem where
  "rewritten_fs = fs_of [(js ''/w/a'', regular 1, Some (ascii ''Bye''))]"

text \<open>The state after activation, with \<open>Hello\<close> cached for \<open>/w/a\<close> under the modification time 1.\<close>

definition hello_cached :: state where
  "hello_cached =
     (activate default_config)\<lparr>CACHE :=
        [js ''/w/a'' \<mapsto> \<lparr>cached_mtimeMs = 1, cached_text = js ''Hello''\<rparr>]\<rparr>"

text \<open>
  The path \<open>/w/a\<close> as a regular file holding \<open>old\<close> and as a directory with the same
  modification time; the match of a tag \<open><<a>>\<close> at the start of a document in \<open>/w\<close>.
\<close>

definition old_fs :: filesystem where
  "old_fs = fs_of [(js ''/w/a'', regular 5, Some (ascii ''old''))]"

definition dir_fs :: filesystem where
  "dir_fs = fs_of [(js ''/w/a'', directory 5, None)]"

definition tag_a :: tag_match where
  "tag_a = \<lparr>startOffset = 0, endOffset = 5, inner = js ''a'', absPath = js ''/w/a''\<rparr>"

text \<open>
  Concrete passes on an editor 0 showing a document of \<open>/w\<close>: the document
  \<open><<a>>\<close> under the default configuration and under a configuration with
  \<open>maxBytes = 2\<close>, and a document without tags. \<open>compile_default\<close> compiles the
  built-in pattern's source; \<open>hello_inline\<close> is the inline decoration of the tag when
  \<open>/w/a\<close> holds \<open>Hello\<close>.
\<close>

definition compile_default :: "jsstring \<Rightarrow> regexp option" where
  "compile_default = map_of [(default_pattern_source, default_tag_regexp)]"

definition pass_a :: pass where
  "pass_a = \<lparr>pass_editor = 0, pass_cfg = default_config, pass_matches = [tag_a]\<rparr>"


definition hello_inline :: decoration where
  "hello_inline =
     \<lparr>range_start = 0, range_end = 5,
      hoverMessage = Some (js ''```text'' @ [0x0A] @ js ''Hello'' @ [0x0A] @ js ''```''),
      contentText = Some (js ''Hello'')\<rparr>"

definition small_limit_config :: config where
  "small_limit_config = default_config\<lparr>cfg_maxBytes := Some 2\<rparr>"

definition pass_a_small :: pass where
  "pass_a_small = \<lparr>pass_editor = 0, pass_cfg = small_limit_config, pass_matches = [tag_a]\<rparr>"

text \<open>
  Concrete runs. A document of \<open>/w\<close> on editor 0 reads \<open><<a>>\<close>, where \<open>/w/a\<close>
  holds \<open>Hello\<close>; \<open>first_pass_events\<close> is a pass on it from start to end. In
  \<open>later_pass_first_events\<close> the tag is removed and a second pass starts before the file
  system has answered the first: the second pass, without callbacks, ends first, and
  \<open>earlier_pass_late_events\<close> is the rest of the first pass.
  \<open>second_pass_events\<close> is the pass after the limit was changed to 2; its read is answered
  from the cache, so the callback is resumed three times. In \<open>two_tag_events\<close> the
  document reads \<open><<a>> <<b:c>>\<close>, \<open>/w/b/c\<close> does not exist and missing targets are
  shown; \<open>two_tag_system\<close> is where these events lead.
\<close>

definition first_pass_events :: "event list" where
  "first_pass_events =
     [Begin default_config 0 (js ''/w'') (js ''<<a>>''),
      Resume 0 0 hello_fs, Resume 0 0 hello_fs, Resume 0 0 hello_fs, Resume 0 0 hello_fs,
      Apply 0]"

definition second_pass_events :: "event list" where
  "second_pass_events =
     [Begin small_limit_config 0 (js ''/w'') (js ''<<a>>''),
      Resume 1 0 hello_fs, Resume 1 0 hello_fs, Resume 1 0 hello_fs,
      Apply 1]"









section \<open>Properties of the expanded-state tracking\<close>

lemma set_fold_set_add: "set (fold set_add ks acc) = set acc \<union> set ks"
  by (induction ks arbitrary: acc) (auto simp: set_add_def)

lemma distinct_fold_set_add: "distinct acc \<Longrightarrow> distinct (fold set_add ks acc)"
  by (induction ks arbitrary: acc) (auto simp: set_add_def)

text \<open>
  Claim C2. After the visible-editors handler has replaced the expanded set by the set S of
  keys found by its scan, \<open>isExpanded k\<close> holds exactly when \<open>k\<close> is a member of S,
  whatever the expanded set held before: a key of the old set survives only if it is in S.
\<close>

theorem reconcile_total:
  "isExpanded (onDidChangeVisibleTextEditors found expandedKeys) k
     = set_has (presentPreviewKeys found) k
   \<and> set_has (presentPreviewKeys found) k = (k \<in> set found)
   \<and> distinct (onDidChangeVisibleTextEditors found expandedKeys)"
  by (simp add: isExpanded_def onDidChangeVisibleTextEditors_def presentPreviewKeys_def
      set_has_def set_clear_def set_fold_set_add distinct_fold_set_add)

section \<open>Properties of the reference-counted watchers\<close>

lemma refs_pos_update:
  "list_all (\<lambda>(p, info). 1 \<le> refs info) al \<Longrightarrow> 1 \<le> refs v \<Longrightarrow>
   list_all (\<lambda>(p, info). 1 \<le> refs info) (AList.update k v al)"
  by (induction al) auto

lemma refs_pos_delete:
  "list_all (\<lambda>(p, info). 1 \<le> refs info) al \<Longrightarrow>
   list_all (\<lambda>(p, info). 1 \<le> refs info) (AList.delete k al)"
  by (induction al) auto

lemma refs_pos_lookup:
  "list_all (\<lambda>(p, info). 1 \<le> refs info) al \<Longrightarrow> map_of al k = Some v \<Longrightarrow> 1 \<le> refs v"
  by (induction al) (auto split: if_splits)

lemma watch_inv_retain:
  assumes "watch_inv s"
  shows "watch_inv (retainWatcher p s)"
proof (cases "map_of (WATCHERS s) p")
  case None
  then show ?thesis
    using assms by (simp add: watch_inv_def retainWatcher_def refs_pos_update)
next
  case (Some existing)
  then have "1 \<le> refs existing"
    using assms refs_pos_lookup by (auto simp: watch_inv_def)
  then have "1 \<le> refs (existing\<lparr>refs := refs existing + 1\<rparr>)" by simp
  then show ?thesis
    using assms Some by (simp add: watch_inv_def retainWatcher_def refs_pos_update)
qed

lemma watch_inv_release: "watch_inv s \<Longrightarrow> watch_inv (releaseWatcher p s)"
  by (auto simp: watch_inv_def releaseWatcher_def Let_def refs_pos_update refs_pos_delete
      split: option.splits)

lemma watch_inv_run: "watch_inv s \<Longrightarrow> watch_inv (foldl watch_step s ops)"
proof (induction ops arbitrary: s)
  case Nil
  then show ?case by simp
next
  case (Cons op ops)
  then show ?case by (cases op) (simp_all add: watch_inv_retain watch_inv_release)
qed

lemma release_unregistered: "map_of (WATCHERS s) p = None \<Longrightarrow> releaseWatcher p s = s"
  by (simp add: releaseWatcher_def)

lemma release_last:
  "map_of (WATCHERS s) p = Some info \<Longrightarrow> refs info = 1 \<Longrightarrow>
   map_of (WATCHERS (releaseWatcher p s)) p = None \<and> CACHE (releaseWatcher p s) p = None
   \<and> watcher info \<in> set (disposed (releaseWatcher p s))"
  by (simp add: releaseWatcher_def Let_def delete_conv)

lemma release_shared:
  "map_of (WATCHERS s) p = Some info \<Longrightarrow> 1 < refs info \<Longrightarrow>
   map_of (WATCHERS (releaseWatcher p s)) p = Some (info\<lparr>refs := refs info - 1\<rparr>)
   \<and> CACHE (releaseWatcher p s) = CACHE s \<and> disposed (releaseWatcher p s) = disposed s"
  by (simp add: releaseWatcher_def Let_def update_conv)

text \<open>
  Claim C4. Start with an empty watch table and run any finite sequence of
  \<open>retainWatcher\<close> and \<open>releaseWatcher\<close> calls. Every reference count then stored
  is at least 1, so never negative. Releasing a path that has no registration changes
  nothing, so releasing again after the last release is a no-op. Releasing a path whose
  count is 1 disposes its watcher and removes both its watch-table entry and its cache
  entry; releasing a path whose count is larger only lowers the count.
\<close>

theorem watcher_refcount:
  assumes "WATCHERS s0 = []"
  shows "(\<forall>info. map_of (WATCHERS (foldl watch_step s0 ops)) p = Some info \<longrightarrow>
            0 \<le> refs info \<and> 1 \<le> refs info)
    \<and> (map_of (WATCHERS (foldl watch_step s0 ops)) p = None \<longrightarrow>
         releaseWatcher p (foldl watch_step s0 ops) = foldl watch_step s0 ops)
    \<and> (\<forall>info. map_of (WATCHERS (foldl watch_step s0 ops)) p = Some info \<and> refs info = 1 \<longrightarrow>
         map_of (WATCHERS (releaseWatcher p (foldl watch_step s0 ops))) p = None
         \<and> CACHE (releaseWatcher p (foldl watch_step s0 ops)) p = None
         \<and> watcher info \<in> set (disposed (releaseWatcher p (foldl watch_step s0 ops)))
         \<and> releaseWatcher p (releaseWatcher p (foldl watch_step s0 ops))
             = releaseWatcher p (foldl watch_step s0 ops))
    \<and> (\<forall>info. map_of (WATCHERS (foldl watch_step s0 ops)) p = Some info \<and> 1 < refs info \<longrightarrow>
         map_of (WATCHERS (releaseWatcher p (foldl watch_step s0 ops))) p
           = Some (info\<lparr>refs := refs info - 1\<rparr>)
         \<and> CACHE (releaseWatcher p (foldl watch_step s0 ops)) = CACHE (foldl watch_step s0 ops)
         \<and> disposed (releaseWatcher p (foldl watch_step s0 ops))
             = disposed (foldl watch_step s0 ops))"
proof -
  let ?s = "foldl watch_step s0 ops"
  have "watch_inv s0" using assms by (simp add: watch_inv_def)
  then have inv: "watch_inv ?s" by (rule watch_inv_run)
  have pos: "1 \<le> refs info" if "map_of (WATCHERS ?s) p = Some info" for info
    using inv that refs_pos_lookup by (auto simp: watch_inv_def)
  have last: "map_of (WATCHERS (releaseWatcher p ?s)) p = None
      \<and> CACHE (releaseWatcher p ?s) p = None
      \<and> watcher info \<in> set (disposed (releaseWatcher p ?s))
      \<and> releaseWatcher p (releaseWatcher p ?s) = releaseWatcher p ?s"
    if "map_of (WATCHERS ?s) p = Some info" "refs info = 1" for info
    using release_last [OF that] release_unregistered by simp
  show ?thesis
    using pos last release_unregistered release_shared by (intro conjI allI impI) force+
qed

theorem watcher_refcount_witness:
  "WATCHERS (activate default_config) = []
   \<and> map_of (WATCHERS (foldl watch_step (activate default_config)
        [Retain (js ''/w/a''), Retain (js ''/w/a''), Release (js ''/w/a'')])) (js ''/w/a'')
       = Some \<lparr>watcher = 2, refs = 1\<rparr>
   \<and> map_of (WATCHERS (releaseWatcher (js ''/w/a'') (foldl watch_step (activate default_config)
        [Retain (js ''/w/a''), Retain (js ''/w/a''), Release (js ''/w/a'')]))) (js ''/w/a'') = None
   \<and> CACHE (releaseWatcher (js ''/w/a'') (foldl watch_step (activate default_config)
        [Retain (js ''/w/a''), Retain (js ''/w/a''), Release (js ''/w/a'')])) (js ''/w/a'') = None
   \<and> 2 \<in> set (disposed (releaseWatcher (js ''/w/a'') (foldl watch_step (activate default_config)
        [Retain (js ''/w/a''), Retain (js ''/w/a''), Release (js ''/w/a'')])))
   \<and> map_of (WATCHERS (foldl watch_step (activate default_config)
        [Retain (js ''/w/a''), Retain (js ''/w/a''), Release (js ''/w/a'')])) (js ''/w/b'') = None
   \<and> releaseWatcher (js ''/w/b'') (foldl watch_step (activate default_config)
        [Retain (js ''/w/a''), Retain (js ''/w/a''), Release (js ''/w/a'')])
       = foldl watch_step (activate default_config)
        [Retain (js ''/w/a''), Retain (js ''/w/a''), Release (js ''/w/a'')]
   \<and> map_of (WATCHERS (foldl watch_step (activate default_config)
        [Retain (js ''/w/a''), Retain (js ''/w/a'')])) (js ''/w/a'')
       = Some \<lparr>watcher = 2, refs = 2\<rparr>
   \<and> (1::int) < 2
   \<and> map_of (WATCHERS (releaseWatcher (js ''/w/a'') (foldl watch_step (activate default_config)
        [Retain (js ''/w/a''), Retain (js ''/w/a'')]))) (js ''/w/a'')
       = Some \<lparr>watcher = 2, refs = 1\<rparr>
   \<and> disposed (releaseWatcher (js ''/w/a'') (foldl watch_step (activate default_config)
        [Retain (js ''/w/a''), Retain (js ''/w/a'')])) = []"
proof -
  let ?a = "js ''/w/a''"
  let ?ops = "[Retain ?a, Retain ?a, Release ?a]"
  let ?two = "[Retain ?a, Retain ?a]"
  have empty: "WATCHERS (activate default_config) = []"
    by (simp add: activate_def createDecorations_def)
  have tab: "WATCHERS (foldl watch_step (activate default_config) ?ops)
      = [(?a, \<lparr>watcher = 2, refs = 1\<rparr>)]"
    by (simp add: activate_def createDecorations_def retainWatcher_def releaseWatcher_def
        js_def Let_def)
  have tab2: "WATCHERS (foldl watch_step (activate default_config) ?two)
      = [(?a, \<lparr>watcher = 2, refs = 2\<rparr>)]"
    by (simp add: activate_def createDecorations_def retainWatcher_def js_def)
  have disp2: "disposed (foldl watch_step (activate default_config) ?two) = []"
    by (simp add: activate_def createDecorations_def retainWatcher_def js_def)
  have a: "map_of [(?a, \<lparr>watcher = 2, refs = 1\<rparr>)] ?a = Some \<lparr>watcher = 2, refs = 1\<rparr>"
    by simp
  have b: "map_of [(?a, \<lparr>watcher = 2, refs = 1\<rparr>)] (js ''/w/b'') = None"
    by (simp add: js_def)
  have c: "map_of [(?a, \<lparr>watcher = 2, refs = 2\<rparr>)] ?a = Some \<lparr>watcher = 2, refs = 2\<rparr>"
    by simp
  have shared: "map_of (WATCHERS (releaseWatcher ?a (foldl watch_step (activate default_config) ?two))) ?a
        = Some \<lparr>watcher = 2, refs = 1\<rparr>
      \<and> disposed (releaseWatcher ?a (foldl watch_step (activate default_config) ?two)) = []"
    using watcher_refcount [OF empty, of ?two ?a] c disp2 unfolding tab2 by simp
  have last: "map_of (WATCHERS (releaseWatcher ?a (foldl watch_step (activate default_config) ?ops))) ?a = None
      \<and> CACHE (releaseWatcher ?a (foldl watch_step (activate default_config) ?ops)) ?a = None
      \<and> 2 \<in> set (disposed (releaseWatcher ?a (foldl watch_step (activate default_config) ?ops)))"
    using watcher_refcount [OF empty, of ?ops ?a] a unfolding tab by simp
  have noop: "releaseWatcher (js ''/w/b'') (foldl watch_step (activate default_config) ?ops)
      = foldl watch_step (activate default_config) ?ops"
    using watcher_refcount [OF empty, of ?ops "js ''/w/b''"] b unfolding tab by simp
  have stored: "map_of (WATCHERS (foldl watch_step (activate default_config) ?ops)) ?a
      = Some \<lparr>watcher = 2, refs = 1\<rparr>"
    unfolding tab by (rule a)
  have absent: "map_of (WATCHERS (foldl watch_step (activate default_config) ?ops)) (js ''/w/b'') = None"
    unfolding tab by (rule b)
  have twice: "map_of (WATCHERS (foldl watch_step (activate default_config) ?two)) ?a
      = Some \<lparr>watcher = 2, refs = 2\<rparr>"
    unfolding tab2 by (rule c)
  have lt: "(1::int) < 2" by simp
  from empty stored last absent noop twice lt shared show ?thesis by blast
qed

section \<open>Properties of the cached read\<close>

lemma read_stat_fails: "stat fs p = None \<Longrightarrow> readFileTruncated fs p mb s = ([], s)"
  by (simp add: readFileTruncated_def)

lemma read_hit:
  "stat fs p = Some st \<Longrightarrow> cacheLookup (CACHE s) p (mtimeMs st) = Some t \<Longrightarrow>
   readFileTruncated fs p mb s = (t, s)"
  by (simp add: readFileTruncated_def)

lemma read_readFile_fails:
  "stat fs p = Some st \<Longrightarrow> cacheLookup (CACHE s) p (mtimeMs st) = None \<Longrightarrow>
   readFile fs p = None \<Longrightarrow> readFileTruncated fs p mb s = ([], s)"
  by (simp add: readFileTruncated_def)

lemma read_miss:
  "stat fs p = Some st \<Longrightarrow> cacheLookup (CACHE s) p (mtimeMs st) = None \<Longrightarrow>
   readFile fs p = Some buf \<Longrightarrow>
   readFileTruncated fs p mb s =
     (toString_utf8 (truncateBuffer mb buf),
      s\<lparr>CACHE := (CACHE s)(p \<mapsto> \<lparr>cached_mtimeMs = mtimeMs st,
                                  cached_text = toString_utf8 (truncateBuffer mb buf)\<rparr>)\<rparr>)"
  by (simp add: readFileTruncated_def Let_def)

lemma truncateBuffer_pos: "0 < mb \<Longrightarrow> truncateBuffer mb buf = take (nat mb) buf"
  by (auto simp: truncateBuffer_def subarray_def relative_index_def Let_def min_def)

lemma truncateBuffer_zero: "truncateBuffer 0 buf = buf"
  by (simp add: truncateBuffer_def)

lemma read_hit_entry:
  "stat fs p = Some st \<Longrightarrow> CACHE s p = Some c \<Longrightarrow> cached_mtimeMs c = mtimeMs st \<Longrightarrow>
   readFileTruncated fs p mb s = (cached_text c, s)"
  by (rule read_hit [of fs p st]) (simp_all add: cacheLookup_def)

lemma read_stale_entry:
  "stat fs p = Some st \<Longrightarrow> CACHE s p = Some c \<Longrightarrow> cached_mtimeMs c \<noteq> mtimeMs st \<Longrightarrow>
   readFile fs p = Some buf \<Longrightarrow>
   readFileTruncated fs p mb s =
     (toString_utf8 (truncateBuffer mb buf),
      s\<lparr>CACHE := (CACHE s)(p \<mapsto> \<lparr>cached_mtimeMs = mtimeMs st,
                     cached_text = toString_utf8 (truncateBuffer mb buf)\<rparr>)\<rparr>)"
  by (rule read_miss) (simp_all add: cacheLookup_def)

lemma read_first:
  "stat fs p = Some st \<Longrightarrow> CACHE s p = None \<Longrightarrow> readFile fs p = Some buf \<Longrightarrow>
   readFileTruncated fs p mb s =
     (toString_utf8 (truncateBuffer mb buf),
      s\<lparr>CACHE := (CACHE s)(p \<mapsto> \<lparr>cached_mtimeMs = mtimeMs st,
                     cached_text = toString_utf8 (truncateBuffer mb buf)\<rparr>)\<rparr>)"
  by (rule read_miss) (simp_all add: cacheLookup_def)

lemma read_again_unchanged:
  assumes "stat fs p = Some st" "CACHE s p = None" "readFile fs p = Some buf"
    and "stat fs' p = Some st'" "mtimeMs st' = mtimeMs st"
  shows "readFileTruncated fs' p mb' (snd (readFileTruncated fs p mb s))
      = (fst (readFileTruncated fs p mb s), snd (readFileTruncated fs p mb s))"
  unfolding read_first [OF assms(1-3)] using assms(4,5)
  by (intro read_hit [of fs' p st']) (simp_all add: cacheLookup_def)

lemma read_again_changed:
  assumes "stat fs p = Some st" "CACHE s p = None" "readFile fs p = Some buf"
    and "stat fs' p = Some st'" "mtimeMs st' \<noteq> mtimeMs st" "readFile fs' p = Some buf'"
  shows "readFileTruncated fs' p mb' (snd (readFileTruncated fs p mb s)) =
      (toString_utf8 (truncateBuffer mb' buf'),
       (snd (readFileTruncated fs p mb s))\<lparr>CACHE := (CACHE (snd (readFileTruncated fs p mb s)))(p \<mapsto>
          \<lparr>cached_mtimeMs = mtimeMs st', cached_text = toString_utf8 (truncateBuffer mb' buf')\<rparr>)\<rparr>)"
  unfolding read_first [OF assms(1-3)] using assms(4-6)
  by (intro read_miss) (simp_all add: cacheLookup_def)

lemma truncateBuffer_firstBytes: "truncateBuffer mb buf = firstBytes mb buf"
  by (auto simp: truncateBuffer_def firstBytes_def subarray_def relative_index_def Let_def min_def max_def)

text \<open>
  Claim C1, amended. A read that finds a cache entry carrying the path's current modification time
  returns the cached text and changes nothing. A read that finds an entry with another
  modification time, or none, reads the file again, keeps the first \<open>maxBytes\<close> bytes
  (\<^const>\<open>firstBytes\<close>), stores their decoding under the current modification time and
  returns it. Hence, after an initial read of a path, a later read returns the very same text
  as long as the modification time is unchanged, whatever the file holds by then, and the
  truncated new content once the modification time has changed. A read returns something
  other than the truncated current content only from an entry that carries the current
  modification time.
\<close>

theorem read_cache_correct:
  "(\<forall>(st::stats) (c::cache_entry). stat fs p = Some st \<and> CACHE s p = Some c
        \<and> cached_mtimeMs c = mtimeMs st
      \<longrightarrow> readFileTruncated fs p mb s = (cached_text c, s))
   \<and> (\<forall>(st::stats) (c::cache_entry) buf. stat fs p = Some st \<and> CACHE s p = Some c
         \<and> cached_mtimeMs c \<noteq> mtimeMs st \<and> readFile fs p = Some buf
      \<longrightarrow> readFileTruncated fs p mb s =
            (toString_utf8 (firstBytes mb buf),
             s\<lparr>CACHE := (CACHE s)(p \<mapsto> \<lparr>cached_mtimeMs = mtimeMs st,
                            cached_text = toString_utf8 (firstBytes mb buf)\<rparr>)\<rparr>))
   \<and> (\<forall>(st::stats) buf. stat fs p = Some st \<and> CACHE s p = None \<and> readFile fs p = Some buf
      \<longrightarrow> readFileTruncated fs p mb s =
            (toString_utf8 (firstBytes mb buf),
             s\<lparr>CACHE := (CACHE s)(p \<mapsto> \<lparr>cached_mtimeMs = mtimeMs st,
                            cached_text = toString_utf8 (firstBytes mb buf)\<rparr>)\<rparr>))
   \<and> (\<forall>(st::stats) buf (fs'::filesystem) (st'::stats) mb'. stat fs p = Some st \<and> CACHE s p = None
         \<and> readFile fs p = Some buf \<and> stat fs' p = Some st' \<and> mtimeMs st' = mtimeMs st
      \<longrightarrow> readFileTruncated fs' p mb' (snd (readFileTruncated fs p mb s))
            = (toString_utf8 (firstBytes mb buf), snd (readFileTruncated fs p mb s)))
   \<and> (\<forall>(st::stats) buf (fs'::filesystem) (st'::stats) buf' mb'. stat fs p = Some st
         \<and> CACHE s p = None \<and> readFile fs p = Some buf
         \<and> stat fs' p = Some st' \<and> mtimeMs st' \<noteq> mtimeMs st \<and> readFile fs' p = Some buf'
      \<longrightarrow> fst (readFileTruncated fs' p mb' (snd (readFileTruncated fs p mb s)))
            = toString_utf8 (firstBytes mb' buf')
          \<and> CACHE (snd (readFileTruncated fs' p mb' (snd (readFileTruncated fs p mb s)))) p
            = Some \<lparr>cached_mtimeMs = mtimeMs st',
                    cached_text = toString_utf8 (firstBytes mb' buf')\<rparr>)
   \<and> (\<forall>(st::stats) buf. stat fs p = Some st \<and> readFile fs p = Some buf
         \<and> fst (readFileTruncated fs p mb s) \<noteq> toString_utf8 (firstBytes mb buf)
      \<longrightarrow> (\<exists>c::cache_entry. CACHE s p = Some c \<and> cached_mtimeMs c = mtimeMs st
            \<and> cached_text c = fst (readFileTruncated fs p mb s)))"
proof (intro conjI allI impI)
  fix st :: stats and c :: cache_entry
  assume "stat fs p = Some st \<and> CACHE s p = Some c \<and> cached_mtimeMs c = mtimeMs st"
  then show "readFileTruncated fs p mb s = (cached_text c, s)"
    using read_hit_entry by blast
next
  fix st :: stats and c :: cache_entry and buf
  assume "stat fs p = Some st \<and> CACHE s p = Some c \<and> cached_mtimeMs c \<noteq> mtimeMs st
    \<and> readFile fs p = Some buf"
  then show "readFileTruncated fs p mb s =
      (toString_utf8 (firstBytes mb buf),
       s\<lparr>CACHE := (CACHE s)(p \<mapsto> \<lparr>cached_mtimeMs = mtimeMs st,
                      cached_text = toString_utf8 (firstBytes mb buf)\<rparr>)\<rparr>)"
    using read_stale_entry [of fs p st s c buf mb] by (simp add: truncateBuffer_firstBytes)
next
  fix st :: stats and buf
  assume "stat fs p = Some st \<and> CACHE s p = None \<and> readFile fs p = Some buf"
  then show "readFileTruncated fs p mb s =
      (toString_utf8 (firstBytes mb buf),
       s\<lparr>CACHE := (CACHE s)(p \<mapsto> \<lparr>cached_mtimeMs = mtimeMs st,
                      cached_text = toString_utf8 (firstBytes mb buf)\<rparr>)\<rparr>)"
    using read_first [of fs p st s buf mb] by (simp add: truncateBuffer_firstBytes)
next
  fix st :: stats and buf and fs' :: filesystem and st' :: stats and mb'
  assume a: "stat fs p = Some st \<and> CACHE s p = None \<and> readFile fs p = Some buf
    \<and> stat fs' p = Some st' \<and> mtimeMs st' = mtimeMs st"
  then have "fst (readFileTruncated fs p mb s) = toString_utf8 (firstBytes mb buf)"
    using read_first [of fs p st s buf mb] by (simp add: truncateBuffer_firstBytes)
  moreover from a have "readFileTruncated fs' p mb' (snd (readFileTruncated fs p mb s))
      = (fst (readFileTruncated fs p mb s), snd (readFileTruncated fs p mb s))"
    using read_again_unchanged by blast
  ultimately show "readFileTruncated fs' p mb' (snd (readFileTruncated fs p mb s))
      = (toString_utf8 (firstBytes mb buf), snd (readFileTruncated fs p mb s))"
    by simp
next
  fix st :: stats and buf and fs' :: filesystem and st' :: stats and buf' mb'
  assume a: "stat fs p = Some st \<and> CACHE s p = None \<and> readFile fs p = Some buf
    \<and> stat fs' p = Some st' \<and> mtimeMs st' \<noteq> mtimeMs st \<and> readFile fs' p = Some buf'"
  then have second: "readFileTruncated fs' p mb' (snd (readFileTruncated fs p mb s)) =
      (toString_utf8 (truncateBuffer mb' buf'),
       (snd (readFileTruncated fs p mb s))\<lparr>CACHE := (CACHE (snd (readFileTruncated fs p mb s)))(p \<mapsto>
          \<lparr>cached_mtimeMs = mtimeMs st', cached_text = toString_utf8 (truncateBuffer mb' buf')\<rparr>)\<rparr>)"
    using read_again_changed by blast
  show "fst (readFileTruncated fs' p mb' (snd (readFileTruncated fs p mb s)))
      = toString_utf8 (firstBytes mb' buf')"
    unfolding second by (simp add: truncateBuffer_firstBytes)
  show "CACHE (snd (readFileTruncated fs' p mb' (snd (readFileTruncated fs p mb s)))) p
      = Some \<lparr>cached_mtimeMs = mtimeMs st',
              cached_text = toString_utf8 (firstBytes mb' buf')\<rparr>"
    unfolding second by (simp add: truncateBuffer_firstBytes)
next
  fix st :: stats and buf
  assume a: "stat fs p = Some st \<and> readFile fs p = Some buf
    \<and> fst (readFileTruncated fs p mb s) \<noteq> toString_utf8 (firstBytes mb buf)"
  show "\<exists>c::cache_entry. CACHE s p = Some c \<and> cached_mtimeMs c = mtimeMs st
      \<and> cached_text c = fst (readFileTruncated fs p mb s)"
  proof (cases "CACHE s p")
    case None
    then have "fst (readFileTruncated fs p mb s) = toString_utf8 (firstBytes mb buf)"
      using a read_first [of fs p st s buf mb] by (simp add: truncateBuffer_firstBytes)
    with a show ?thesis by simp
  next
    case (Some c)
    show ?thesis
    proof (cases "cached_mtimeMs c = mtimeMs st")
      case True
      then have "readFileTruncated fs p mb s = (cached_text c, s)"
        using a Some read_hit_entry [of fs p st s c mb] by simp
      with Some True show ?thesis by simp
    next
      case False
      then have "fst (readFileTruncated fs p mb s) = toString_utf8 (firstBytes mb buf)"
        using a Some read_stale_entry [of fs p st s c buf mb] by (simp add: truncateBuffer_firstBytes)
      with a show ?thesis by simp
    qed
  qed
qed

lemma hello_stat: "stat hello_fs (js ''/w/a'') = Some (regular 1)"
  by (simp add: hello_fs_def fs_of_def)
lemma hello_readFile: "readFile hello_fs (js ''/w/a'') = Some (ascii ''Hello'')"
  by (simp add: hello_fs_def fs_of_def)
lemma bye_stat: "stat bye_fs (js ''/w/a'') = Some (regular 2)"
  by (simp add: bye_fs_def fs_of_def)
lemma bye_readFile: "readFile bye_fs (js ''/w/a'') = Some (ascii ''Bye'')"
  by (simp add: bye_fs_def fs_of_def)
lemma activate_cache: "CACHE (activate cfg) = Map.empty"
  by (simp add: activate_def createDecorations_def)
lemma utf8_Hello: "toString_utf8 (ascii ''Hello'') = js ''Hello''"
  by (simp add: toString_utf8_def utf16_def ascii_def js_def)
lemma utf8_Bye: "toString_utf8 (ascii ''Bye'') = js ''Bye''"
  by (simp add: toString_utf8_def utf16_def ascii_def js_def)
lemma length_ascii: "length (ascii s) = length s" by (simp add: ascii_def)

lemma rewritten_stat: "stat rewritten_fs (js ''/w/a'') = Some (regular 1)"
  by (simp add: rewritten_fs_def fs_of_def)
lemma rewritten_readFile: "readFile rewritten_fs (js ''/w/a'') = Some (ascii ''Bye'')"
  by (simp add: rewritten_fs_def fs_of_def)
lemma utf8_first_Hel: "toString_utf8 (firstBytes 3 (ascii ''Hello'')) = js ''Hel''"
  by (simp add: firstBytes_def toString_utf8_def utf16_def ascii_def js_def)
lemma utf8_first_By: "toString_utf8 (firstBytes 2 (ascii ''Bye'')) = js ''By''"
  by (simp add: firstBytes_def toString_utf8_def utf16_def ascii_def js_def)
lemma utf8_first_Hello: "toString_utf8 (firstBytes 0 (ascii ''Hello'')) = js ''Hello''"
  by (simp add: firstBytes_def utf8_Hello)

theorem read_cache_correct_witness:
  "stat hello_fs (js ''/w/a'') = Some (regular 1)
   \<and> CACHE hello_cached (js ''/w/a'') = Some \<lparr>cached_mtimeMs = 1, cached_text = js ''Hello''\<rparr>
   \<and> cached_mtimeMs \<lparr>cached_mtimeMs = 1, cached_text = js ''Hello''\<rparr> = mtimeMs (regular 1)
   \<and> readFileTruncated hello_fs (js ''/w/a'') 3 hello_cached = (js ''Hello'', hello_cached)
   \<and> stat bye_fs (js ''/w/a'') = Some (regular 2)
   \<and> cached_mtimeMs \<lparr>cached_mtimeMs = 1, cached_text = js ''Hello''\<rparr> \<noteq> mtimeMs (regular 2)
   \<and> readFile bye_fs (js ''/w/a'') = Some (ascii ''Bye'')
   \<and> fst (readFileTruncated bye_fs (js ''/w/a'') 2 hello_cached) = js ''By''
   \<and> readFile hello_fs (js ''/w/a'') = Some (ascii ''Hello'')
   \<and> CACHE (activate default_config) (js ''/w/a'') = None
   \<and> fst (readFileTruncated hello_fs (js ''/w/a'') 3 (activate default_config)) = js ''Hel''
   \<and> fst (readFileTruncated hello_fs (js ''/w/a'') 0
        (snd (readFileTruncated hello_fs (js ''/w/a'') 3 (activate default_config)))) = js ''Hel''
   \<and> fst (readFileTruncated bye_fs (js ''/w/a'') 2
        (snd (readFileTruncated hello_fs (js ''/w/a'') 3 (activate default_config)))) = js ''By''
   \<and> CACHE (snd (readFileTruncated bye_fs (js ''/w/a'') 2
        (snd (readFileTruncated hello_fs (js ''/w/a'') 3 (activate default_config))))) (js ''/w/a'')
       = Some \<lparr>cached_mtimeMs = 2, cached_text = js ''By''\<rparr>
   \<and> stat rewritten_fs (js ''/w/a'') = Some (regular 1)
   \<and> readFile rewritten_fs (js ''/w/a'') = Some (ascii ''Bye'')
   \<and> fst (readFileTruncated rewritten_fs (js ''/w/a'') 2 hello_cached)
       \<noteq> toString_utf8 (firstBytes 2 (ascii ''Bye''))
   \<and> (\<exists>c::cache_entry. CACHE hello_cached (js ''/w/a'') = Some c
         \<and> cached_mtimeMs c = mtimeMs (regular 1)
         \<and> cached_text c = fst (readFileTruncated rewritten_fs (js ''/w/a'') 2 hello_cached))"
proof -
  let ?p = "js ''/w/a''"
  let ?s = "activate default_config"
  let ?c = "\<lparr>cached_mtimeMs = 1, cached_text = js ''Hello''\<rparr>"
  have same: "mtimeMs (regular 1) = mtimeMs (regular 1)" by simp
  have diff: "mtimeMs (regular 2) \<noteq> mtimeMs (regular 1)" by (simp add: regular_def)
  have two: "mtimeMs (regular 2) = 2" by (simp add: regular_def)
  have none: "CACHE ?s ?p = None" by (simp add: activate_cache)
  have entry: "CACHE hello_cached ?p = Some ?c" by (simp add: hello_cached_def)
  have fresh: "cached_mtimeMs ?c = mtimeMs (regular 1)" by (simp add: regular_def)
  have stale: "cached_mtimeMs ?c \<noteq> mtimeMs (regular 2)" by (simp add: regular_def)
  have hit: "readFileTruncated hello_fs ?p 3 hello_cached = (cached_text ?c, hello_cached)"
    using read_cache_correct [of hello_fs ?p hello_cached 3] hello_stat entry fresh by blast
  have reread: "fst (readFileTruncated bye_fs ?p 2 hello_cached)
      = toString_utf8 (firstBytes 2 (ascii ''Bye''))"
    using read_cache_correct [of bye_fs ?p hello_cached 2] bye_stat entry stale bye_readFile
    by force
  have first: "fst (readFileTruncated hello_fs ?p 3 ?s) = toString_utf8 (firstBytes 3 (ascii ''Hello''))"
    using read_cache_correct [of hello_fs ?p ?s 3] hello_stat hello_readFile none by force
  have again: "fst (readFileTruncated hello_fs ?p 0 (snd (readFileTruncated hello_fs ?p 3 ?s)))
      = toString_utf8 (firstBytes 3 (ascii ''Hello''))"
    using read_cache_correct [of hello_fs ?p ?s 3] hello_stat hello_readFile none same by force
  have changed: "fst (readFileTruncated bye_fs ?p 2 (snd (readFileTruncated hello_fs ?p 3 ?s)))
        = toString_utf8 (firstBytes 2 (ascii ''Bye''))
      \<and> CACHE (snd (readFileTruncated bye_fs ?p 2 (snd (readFileTruncated hello_fs ?p 3 ?s)))) ?p
        = Some \<lparr>cached_mtimeMs = mtimeMs (regular 2),
                cached_text = toString_utf8 (firstBytes 2 (ascii ''Bye''))\<rparr>"
    using read_cache_correct [of hello_fs ?p ?s 3] hello_stat hello_readFile none bye_stat
      bye_readFile diff by blast
  have served: "fst (readFileTruncated rewritten_fs ?p 2 hello_cached) = js ''Hello''"
    using read_hit_entry [OF rewritten_stat entry fresh, of 2] by simp
  have differs: "fst (readFileTruncated rewritten_fs ?p 2 hello_cached)
      \<noteq> toString_utf8 (firstBytes 2 (ascii ''Bye''))"
    unfolding served utf8_first_By by (simp add: js_def)
  have kept: "\<exists>c::cache_entry. CACHE hello_cached ?p = Some c
      \<and> cached_mtimeMs c = mtimeMs (regular 1)
      \<and> cached_text c = fst (readFileTruncated rewritten_fs ?p 2 hello_cached)"
    using read_cache_correct [of rewritten_fs ?p hello_cached 2] rewritten_stat
      rewritten_readFile differs by blast
  have part: "stat hello_fs ?p = Some (regular 1)
   \<and> CACHE hello_cached ?p = Some ?c
   \<and> cached_mtimeMs ?c = mtimeMs (regular 1)
   \<and> readFileTruncated hello_fs ?p 3 hello_cached = (js ''Hello'', hello_cached)
   \<and> stat bye_fs ?p = Some (regular 2)
   \<and> cached_mtimeMs ?c \<noteq> mtimeMs (regular 2)
   \<and> readFile bye_fs ?p = Some (ascii ''Bye'')
   \<and> fst (readFileTruncated bye_fs ?p 2 hello_cached) = js ''By''
   \<and> readFile hello_fs ?p = Some (ascii ''Hello'')
   \<and> CACHE ?s ?p = None
   \<and> fst (readFileTruncated hello_fs ?p 3 ?s) = js ''Hel''
   \<and> fst (readFileTruncated hello_fs ?p 0 (snd (readFileTruncated hello_fs ?p 3 ?s))) = js ''Hel''
   \<and> fst (readFileTruncated bye_fs ?p 2 (snd (readFileTruncated hello_fs ?p 3 ?s))) = js ''By''
   \<and> CACHE (snd (readFileTruncated bye_fs ?p 2 (snd (readFileTruncated hello_fs ?p 3 ?s)))) ?p
       = Some \<lparr>cached_mtimeMs = 2, cached_text = js ''By''\<rparr>"
    using hello_stat hello_readFile none bye_stat bye_readFile entry fresh stale hit reread first
      again changed
    by (simp add: utf8_first_Hel utf8_first_By two)
  from part rewritten_stat rewritten_readFile differs kept show ?thesis by blast
qed

text \<open>
  \<open>/w/a\<close> is rewritten from \<open>Hello\<close> to \<open>Bye\<close> and keeps its modification time:
  the read after the change still returns \<open>Hello\<close>.
\<close>

theorem stale_content_counterexample:
  "stat hello_fs (js ''/w/a'') = Some (regular 1)
   \<and> stat rewritten_fs (js ''/w/a'') = Some (regular 1)
   \<and> readFile rewritten_fs (js ''/w/a'') = Some (ascii ''Bye'')
   \<and> toString_utf8 (firstBytes 8192 (ascii ''Bye'')) = js ''Bye''
   \<and> fst (readFileTruncated rewritten_fs (js ''/w/a'') 8192
        (snd (readFileTruncated hello_fs (js ''/w/a'') 8192 (activate default_config)))) = js ''Hello''
   \<and> js ''Hello'' \<noteq> js ''Bye''"
proof -
  let ?p = "js ''/w/a''"
  let ?s = "activate default_config"
  have none: "CACHE ?s ?p = None" by (simp add: activate_cache)
  have first: "fst (readFileTruncated hello_fs ?p 8192 ?s) = js ''Hello''"
    using read_first [OF hello_stat none hello_readFile, of 8192]
    by (simp add: truncateBuffer_def length_ascii utf8_Hello)
  have again: "readFileTruncated rewritten_fs ?p 8192 (snd (readFileTruncated hello_fs ?p 8192 ?s))
      = (fst (readFileTruncated hello_fs ?p 8192 ?s), snd (readFileTruncated hello_fs ?p 8192 ?s))"
    by (rule read_again_unchanged [OF hello_stat none hello_readFile rewritten_stat]) simp
  have bye: "toString_utf8 (firstBytes 8192 (ascii ''Bye'')) = js ''Bye''"
    by (simp add: firstBytes_def utf8_Bye length_ascii)
  have ne: "js ''Hello'' \<noteq> js ''Bye''" by (simp add: js_def)
  show ?thesis
    using hello_stat rewritten_stat rewritten_readFile bye ne by (simp add: again first)
qed

section \<open>Truncation, failures and directories\<close>

lemma configuredMaxBytes_nonneg: "0 \<le> configuredMaxBytes cfg"
  by (simp add: configuredMaxBytes_def)

lemma configuredMaxBytes_default: "cfg_maxBytes cfg = None \<Longrightarrow> configuredMaxBytes cfg = 8192"
  by (simp add: configuredMaxBytes_def nullish_def)

lemma read_miss_text:
  "stat fs p = Some st \<Longrightarrow> cacheLookup (CACHE s) p (mtimeMs st) = None \<Longrightarrow>
   readFile fs p = Some buf \<Longrightarrow>
   fst (readFileTruncated fs p mb s) = toString_utf8 (truncateBuffer mb buf)"
  by (simp add: read_miss)

text \<open>
  Claim C6, amended. The configured limit is never negative and is 8192 when unset. A read
  returns the empty string when \<open>stat\<close> fails, and when it reaches \<open>readFile\<close> and
  that fails. A read that reaches \<open>readFile\<close> with a limit above 0 returns the decoding
  of the first \<open>maxBytes\<close> bytes of the content (of all of it when it is shorter); with
  the limit 0 it returns the decoding of the whole content.
\<close>

theorem read_truncation:
  "0 \<le> configuredMaxBytes cfg
   \<and> (cfg_maxBytes cfg = None \<longrightarrow> configuredMaxBytes cfg = 8192)
   \<and> (stat fs p = None \<longrightarrow> readFileTruncated fs p mb s = ([], s))
   \<and> (\<forall>st::stats. stat fs p = Some st \<and> cacheLookup (CACHE s) p (mtimeMs st) = None
         \<and> readFile fs p = None
       \<longrightarrow> readFileTruncated fs p mb s = ([], s))
   \<and> (\<forall>(st::stats) buf. stat fs p = Some st \<and> cacheLookup (CACHE s) p (mtimeMs st) = None
         \<and> readFile fs p = Some buf \<and> 0 < mb
       \<longrightarrow> fst (readFileTruncated fs p mb s) = toString_utf8 (take (nat mb) buf)
           \<and> int (length (take (nat mb) buf)) \<le> mb)
   \<and> (\<forall>(st::stats) buf. stat fs p = Some st \<and> cacheLookup (CACHE s) p (mtimeMs st) = None
         \<and> readFile fs p = Some buf \<and> mb = 0
       \<longrightarrow> fst (readFileTruncated fs p mb s) = toString_utf8 buf)"
proof -
  have pos: "fst (readFileTruncated fs p mb s) = toString_utf8 (take (nat mb) buf)
      \<and> int (length (take (nat mb) buf)) \<le> mb"
    if "stat fs p = Some st" "cacheLookup (CACHE s) p (mtimeMs st) = None"
      "readFile fs p = Some buf" "0 < mb" for st :: stats and buf
    using that by (simp add: read_miss_text truncateBuffer_pos)
  have zero: "fst (readFileTruncated fs p mb s) = toString_utf8 buf"
    if "stat fs p = Some st" "cacheLookup (CACHE s) p (mtimeMs st) = None"
      "readFile fs p = Some buf" "mb = 0" for st :: stats and buf
    using that by (simp add: read_miss_text truncateBuffer_zero)
  show ?thesis
    using configuredMaxBytes_nonneg configuredMaxBytes_default read_stat_fails
      read_readFile_fails pos zero
    by blast
qed

lemma hello_missing: "stat hello_fs (js ''/w/b'') = None"
  by (simp add: hello_fs_def fs_of_def js_def)
lemma dir_stat: "stat dir_fs (js ''/w/a'') = Some (directory 5)"
  by (simp add: dir_fs_def fs_of_def)
lemma dir_readFile: "readFile dir_fs (js ''/w/a'') = None"
  by (simp add: dir_fs_def fs_of_def)
lemma old_stat: "stat old_fs (js ''/w/a'') = Some (regular 5)"
  by (simp add: old_fs_def fs_of_def)
lemma old_readFile: "readFile old_fs (js ''/w/a'') = Some (ascii ''old'')"
  by (simp add: old_fs_def fs_of_def)
lemma utf8_old: "toString_utf8 (ascii ''old'') = js ''old''"
  by (simp add: toString_utf8_def utf16_def ascii_def js_def)
lemma utf8_Hel: "toString_utf8 (take 3 (ascii ''Hello'')) = js ''Hel''"
  by (simp add: toString_utf8_def utf16_def ascii_def js_def)
lemma lookup_empty: "cacheLookup (CACHE (activate cfg)) p m = None"
  by (simp add: cacheLookup_def activate_cache)

theorem read_truncation_witness:
  "stat hello_fs (js ''/w/b'') = None
   \<and> readFileTruncated hello_fs (js ''/w/b'') 3 (activate default_config)
       = ([], activate default_config)
   \<and> stat dir_fs (js ''/w/a'') = Some (directory 5)
   \<and> readFile dir_fs (js ''/w/a'') = None
   \<and> readFileTruncated dir_fs (js ''/w/a'') 3 (activate default_config)
       = ([], activate default_config)
   \<and> stat hello_fs (js ''/w/a'') = Some (regular 1)
   \<and> readFile hello_fs (js ''/w/a'') = Some (ascii ''Hello'')
   \<and> (0::int) < 3
   \<and> fst (readFileTruncated hello_fs (js ''/w/a'') 3 (activate default_config)) = js ''Hel''
   \<and> fst (readFileTruncated hello_fs (js ''/w/a'') 0 (activate default_config)) = js ''Hello''
   \<and> cfg_maxBytes default_config = None
   \<and> configuredMaxBytes default_config = 8192"
proof -
  let ?s = "activate default_config"
  have a: "readFileTruncated hello_fs (js ''/w/b'') 3 ?s = ([], ?s)"
    using read_truncation [of default_config hello_fs "js ''/w/b''" 3 ?s] hello_missing by blast
  have b: "readFileTruncated dir_fs (js ''/w/a'') 3 ?s = ([], ?s)"
    using read_truncation [of default_config dir_fs "js ''/w/a''" 3 ?s]
      dir_stat dir_readFile lookup_empty by blast
  have c: "fst (readFileTruncated hello_fs (js ''/w/a'') 3 ?s) = toString_utf8 (take (nat 3) (ascii ''Hello''))"
    using read_truncation [of default_config hello_fs "js ''/w/a''" 3 ?s]
      hello_stat hello_readFile lookup_empty by force
  have d: "fst (readFileTruncated hello_fs (js ''/w/a'') 0 ?s) = toString_utf8 (ascii ''Hello'')"
    using read_truncation [of default_config hello_fs "js ''/w/a''" 0 ?s]
      hello_stat hello_readFile lookup_empty by blast
  have e: "cfg_maxBytes default_config = None" by (simp add: default_config_def)
  have f: "configuredMaxBytes default_config = 8192"
    using read_truncation [of default_config hello_fs "js ''/w/a''" 0 ?s] e by blast
  show ?thesis
    using a b c d e f hello_missing dir_stat dir_readFile hello_stat hello_readFile
    by (simp add: utf8_Hel utf8_Hello)
qed

text \<open>
  With the limit configured as 0 the whole file comes back: five bytes, although no
  string built from at most 0 bytes is \<open>Hello\<close>.
\<close>

theorem limit_zero_counterexample:
  "configuredMaxBytes (default_config\<lparr>cfg_maxBytes := Some 0\<rparr>) = 0
   \<and> readFile hello_fs (js ''/w/a'') = Some (ascii ''Hello'')
   \<and> fst (readFileTruncated hello_fs (js ''/w/a'')
        (configuredMaxBytes (default_config\<lparr>cfg_maxBytes := Some 0\<rparr>)) (activate default_config))
       = js ''Hello''
   \<and> \<not> (\<exists>bs. int (length bs) \<le> configuredMaxBytes (default_config\<lparr>cfg_maxBytes := Some 0\<rparr>)
           \<and> js ''Hello'' = toString_utf8 bs)"
proof -
  have z: "configuredMaxBytes (default_config\<lparr>cfg_maxBytes := Some 0\<rparr>) = 0"
    by (simp add: configuredMaxBytes_def nullish_def)
  have r: "fst (readFileTruncated hello_fs (js ''/w/a'') 0 (activate default_config)) = js ''Hello''"
    using read_miss_text [where mb = 0 and s = "activate default_config",
        OF hello_stat lookup_empty hello_readFile]
    by (simp add: truncateBuffer_zero utf8_Hello)
  have n: "\<not> (\<exists>bs. int (length bs) \<le> 0 \<and> js ''Hello'' = toString_utf8 bs)"
    by (simp add: js_def toString_utf8_def)
  show ?thesis unfolding z using r n hello_readFile by simp
qed

lemma retainWatcher_CACHE: "CACHE (retainWatcher p s) = CACHE s"
  by (simp add: retainWatcher_def split: option.splits)

lemma replaceNewlines_empty: "replaceNewlines [] joiner = []"
  by (simp add: replaceNewlines_def)

lemma directory_exists: "stat fs p = Some st \<Longrightarrow> isDirectory st \<Longrightarrow> pathExists fs p"
  by (simp add: pathExists_def)

lemma directory_decorated:
  assumes "stat fs (absPath it) = Some st" "isDirectory st" "readFile fs (absPath it) = None"
    and "cacheLookup (CACHE s) (absPath it) (mtimeMs st) = None"
    and "nullish (cfg_showInline cfg) True"
  shows "decorate fs cfg it (acc, s) =
    (acc\<lparr>needed := set_add (absPath it) (needed acc),
         inlineDecos := inlineDecos acc @
           [\<lparr>range_start = startOffset it, range_end = endOffset it,
             hoverMessage = (if nullish (cfg_showHover cfg) True
                             then Some (js ''```text'' @ [0x0A] @ [] @ [0x0A] @ js ''```'') else None),
             contentText = Some []\<rparr>],
         hideDecos := hideDecos acc @
           [\<lparr>range_start = startOffset it, range_end = endOffset it,
             hoverMessage = (if nullish (cfg_showHover cfg) True
                             then Some (js ''```text'' @ [0x0A] @ [] @ [0x0A] @ js ''```'') else None),
             contentText = None\<rparr>]\<rparr>,
     retainWatcher (absPath it) s)"
proof -
  have ex: "pathExists fs (absPath it)"
    using assms(1,2) by (rule directory_exists)
  have rd: "readFileTruncated fs (absPath it) mb (retainWatcher (absPath it) s)
      = ([], retainWatcher (absPath it) s)" for mb
    using assms(1,3,4) by (intro read_readFile_fails) (simp_all add: retainWatcher_CACHE)
  show ?thesis
    using ex assms(5) by (simp add: decorate_def Let_def rd replaceNewlines_empty)
qed

text \<open>
  Claim C10, amended. A path that is an existing directory passes the existence check. A
  read of it that reaches \<open>readFile\<close>, that is, one for which the cache holds no entry
  carrying the directory's modification time, returns the empty string and stores
  nothing. The tag is then decorated as an existing target whose inline text is empty
  (not \<open>(missing)\<close>) and whose hover is an empty fenced block, and the path is watched.
\<close>

theorem directory_target:
  assumes "stat fs (absPath it) = Some st" "isDirectory st" "readFile fs (absPath it) = None"
    and "cacheLookup (CACHE s) (absPath it) (mtimeMs st) = None"
  shows "pathExists fs (absPath it)
    \<and> readFileTruncated fs (absPath it) mb s = ([], s)
    \<and> (nullish (cfg_showInline cfg) True \<longrightarrow>
         inlineDecos (fst (decorate fs cfg it (acc, s))) = inlineDecos acc @
           [\<lparr>range_start = startOffset it, range_end = endOffset it,
             hoverMessage = (if nullish (cfg_showHover cfg) True
                             then Some (js ''```text'' @ [0x0A] @ [] @ [0x0A] @ js ''```'') else None),
             contentText = Some []\<rparr>]
         \<and> set_has (needed (fst (decorate fs cfg it (acc, s)))) (absPath it))"
proof -
  have "set_has (set_add (absPath it) (needed acc)) (absPath it)"
    by (simp add: set_has_def set_add_def)
  then show ?thesis
    using directory_exists [OF assms(1,2)] read_readFile_fails [OF assms(1,4,3)]
      directory_decorated [OF assms]
    by simp
qed

theorem directory_target_witness:
  "stat dir_fs (absPath tag_a) = Some (directory 5)
   \<and> isDirectory (directory 5)
   \<and> readFile dir_fs (absPath tag_a) = None
   \<and> cacheLookup (CACHE (activate default_config)) (absPath tag_a) (mtimeMs (directory 5)) = None
   \<and> nullish (cfg_showInline default_config) True
   \<and> pathExists dir_fs (absPath tag_a)
   \<and> readFileTruncated dir_fs (absPath tag_a) 8192 (activate default_config)
       = ([], activate default_config)
   \<and> inlineDecos (fst (decorate dir_fs default_config tag_a (emptyAcc, activate default_config)))
       = [\<lparr>range_start = 0, range_end = 5,
           hoverMessage = Some (js ''```text'' @ [0x0A, 0x0A] @ js ''```''),
           contentText = Some []\<rparr>]"
proof -
  have p: "absPath tag_a = js ''/w/a''" by (simp add: tag_a_def)
  have st: "stat dir_fs (absPath tag_a) = Some (directory 5)" by (simp add: p dir_stat)
  have d: "isDirectory (directory 5)" by (simp add: directory_def)
  have rf: "readFile dir_fs (absPath tag_a) = None" by (simp add: p dir_readFile)
  have sh: "nullish (cfg_showInline default_config) True" "nullish (cfg_showHover default_config) True"
    by (simp_all add: nullish_def default_config_def)
  show ?thesis
    using directory_target [OF st d rf lookup_empty, where mb = 8192 and cfg = default_config
        and acc = emptyAcc and cfg1 = default_config]
      st d rf sh lookup_empty [of default_config "absPath tag_a" "mtimeMs (directory 5)"]
    by (simp add: tag_a_def emptyAcc_def)
qed

text \<open>
  A directory that replaced a regular file of the same modification time is read from the
  cache: the text stored for the file comes back, not the empty string.
\<close>

theorem directory_read_cached_counterexample:
  "stat dir_fs (js ''/w/a'') = Some (directory 5)
   \<and> isDirectory (directory 5)
   \<and> readFile dir_fs (js ''/w/a'') = None
   \<and> pathExists dir_fs (js ''/w/a'')
   \<and> fst (readFileTruncated dir_fs (js ''/w/a'') 8192
        (snd (readFileTruncated old_fs (js ''/w/a'') 8192 (activate default_config)))) = js ''old''
   \<and> js ''old'' \<noteq> []"
proof -
  let ?p = "js ''/w/a''"
  let ?s = "activate default_config"
  have first: "readFileTruncated old_fs ?p 8192 ?s =
      (js ''old'', ?s\<lparr>CACHE := (CACHE ?s)(?p \<mapsto> \<lparr>cached_mtimeMs = 5, cached_text = js ''old''\<rparr>)\<rparr>)"
    using read_miss [OF old_stat lookup_empty old_readFile, where mb = 8192 and cfg1 = default_config]
    by (simp add: truncateBuffer_def length_ascii utf8_old regular_def)
  have second: "readFileTruncated dir_fs ?p 8192
      (?s\<lparr>CACHE := (CACHE ?s)(?p \<mapsto> \<lparr>cached_mtimeMs = 5, cached_text = js ''old''\<rparr>)\<rparr>)
      = (js ''old'', ?s\<lparr>CACHE := (CACHE ?s)(?p \<mapsto> \<lparr>cached_mtimeMs = 5, cached_text = js ''old''\<rparr>)\<rparr>)"
    by (rule read_hit [OF dir_stat]) (simp add: cacheLookup_def directory_def)
  have ne: "js ''old'' \<noteq> []" by (simp add: js_def)
  have dir: "isDirectory (directory 5)" by (simp add: directory_def)
  show ?thesis
    using dir_stat dir_readFile directory_exists [OF dir_stat dir] ne dir
    by (simp add: first second)
qed

section \<open>Properties of the match loop\<close>

lemma exec_cases:
  "exec re str li = (None, 0) \<or> (\<exists>index e. li \<le> length str \<and> re str li = Some (index, e)
     \<and> exec re str li = (Some (index, e), e))"
  by (auto simp: exec_def split: option.splits)

lemma matchLoop_done: "exec re str li = (None, x) \<Longrightarrow> matchLoop re b sep str li = Some []"
  by (subst matchLoop.simps) simp

lemma matchLoop_more:
  "exec re str li = (Some (index, e), li') \<Longrightarrow>
   matchLoop re b sep str li =
     Option.bind (matchLoop re b sep str (advance index li'))
       (\<lambda>rest. Some (\<lparr>startOffset = index,
                         endOffset = index + length (take (e - index) (drop index str)),
                         inner = slice (take (e - index) (drop index str)) 2 (- 2),
                         absPath = toAbsolute b (slice (take (e - index) (drop index str)) 2 (- 2)) sep\<rparr>
                       # rest))"
  by (subst matchLoop.simps) (simp add: Let_def)

lemma advance_beyond: "index \<le> e \<Longrightarrow> index < advance index e \<and> e \<le> advance index e"
  by (simp add: advance_def)

lemma matchLoop_scan:
  assumes ok: "regexp_ok re"
  shows "\<exists>ms. matchLoop re b sep str li = Some ms
    \<and> (\<forall>m \<in> set ms. li \<le> startOffset m \<and> startOffset m \<le> endOffset m \<and> endOffset m \<le> length str)
    \<and> ordered ms
    \<and> length ms \<le> Suc (length str) - li
    \<and> (never_empty re \<longrightarrow> (\<forall>m \<in> set ms. startOffset m < endOffset m))"
proof (induction "Suc (length str) - li" arbitrary: li rule: less_induct)
  case less
  from exec_cases [of re str li] show ?case
  proof (elim disjE exE conjE)
    assume "exec re str li = (None, 0)"
    then have "matchLoop re b sep str li = Some []" by (rule matchLoop_done)
    then show ?thesis by (simp add: ordered_def)
  next
    fix index e
    assume li: "li \<le> length str" and m: "re str li = Some (index, e)"
      and ex: "exec re str li = (Some (index, e), e)"
    from ok li m have bounds: "li \<le> index" "index \<le> e" "e \<le> length str"
      unfolding regexp_ok_def by blast+
    let ?next = "advance index e"
    have adv: "index < ?next" "e \<le> ?next"
      using advance_beyond [OF bounds(2)] by simp_all
    have "Suc (length str) - ?next < Suc (length str) - li"
      using adv bounds li by linarith
    from less [OF this] obtain rest where
      rest: "matchLoop re b sep str ?next = Some rest"
      and rest_in: "\<forall>m \<in> set rest. ?next \<le> startOffset m \<and> startOffset m \<le> endOffset m
        \<and> endOffset m \<le> length str"
      and rest_ord: "ordered rest"
      and rest_len: "length rest \<le> Suc (length str) - ?next"
      and rest_ne: "never_empty re \<longrightarrow> (\<forall>m \<in> set rest. startOffset m < endOffset m)"
      by blast
    let ?m = "\<lparr>startOffset = index,
               endOffset = index + length (take (e - index) (drop index str)),
               inner = slice (take (e - index) (drop index str)) 2 (- 2),
               absPath = toAbsolute b (slice (take (e - index) (drop index str)) 2 (- 2)) sep\<rparr>"
    have res: "matchLoop re b sep str li = Some (?m # rest)"
      by (simp add: matchLoop_more [OF ex] rest)
    have end_m: "endOffset ?m = e" using bounds by simp
    have start_m: "startOffset ?m = index" by simp
    have in_all: "\<forall>m \<in> set (?m # rest). li \<le> startOffset m \<and> startOffset m \<le> endOffset m
        \<and> endOffset m \<le> length str"
      using rest_in bounds adv by (auto simp: min_def)
    have ord: "ordered (?m # rest)"
      using rest_ord rest_in adv bounds unfolding ordered_def
      by (auto simp: min_def)
    have len: "length (?m # rest) \<le> Suc (length str) - li"
      using rest_len adv bounds li by simp
    have ne: "never_empty re \<longrightarrow> (\<forall>m \<in> set (?m # rest). startOffset m < endOffset m)"
    proof
      assume n: "never_empty re"
      then have "index < e" using m unfolding never_empty_def by blast
      then show "\<forall>m \<in> set (?m # rest). startOffset m < endOffset m"
        using rest_ne n bounds by (auto simp: min_def)
    qed
    show ?thesis
      using res in_all ord len ne by blast
  qed
qed

lemma search_bounds:
  assumes "\<forall>s n. matchHere s = Some n \<longrightarrow> n \<le> length s"
  shows "search matchHere i str = Some (index, e) \<Longrightarrow> i \<le> index \<and> index \<le> e \<and> e \<le> i + length str"
proof (induction str arbitrary: i)
  case Nil
  show ?case
  proof (cases "matchHere []")
    case None
    with Nil show ?thesis by simp
  next
    case (Some n)
    with assms have "n \<le> length ([] :: jsstring)" by blast
    with Some Nil show ?thesis by auto
  qed
next
  case (Cons c cs)
  show ?case
  proof (cases "matchHere (c # cs)")
    case None
    with Cons.prems have "search matchHere (i + 1) cs = Some (index, e)" by simp
    from Cons.IH [OF this] show ?thesis by simp
  next
    case (Some n)
    with assms have "n \<le> length (c # cs)" by blast
    with Some Cons.prems show ?thesis by auto
  qed
qed

lemma search_nonempty:
  assumes "\<forall>s n. matchHere s = Some n \<longrightarrow> 0 < n"
  shows "search matchHere i str = Some (index, e) \<Longrightarrow> index < e"
proof (induction str arbitrary: i)
  case Nil
  then show ?case using assms by (auto split: option.splits)
next
  case (Cons c cs)
  then show ?case using assms by (auto split: option.splits)
qed

lemma regexp_of_ok:
  assumes "\<forall>s n. matchHere s = Some n \<longrightarrow> n \<le> length s"
  shows "regexp_ok (regexp_of matchHere)"
  unfolding regexp_ok_def regexp_of_def
  using search_bounds [OF assms] by fastforce

lemma regexp_of_never_empty:
  assumes "\<forall>s n. matchHere s = Some n \<longrightarrow> 0 < n"
  shows "never_empty (regexp_of matchHere)"
  unfolding never_empty_def regexp_of_def
  using search_nonempty [OF assms] by blast

lemma default_tag_here_length:
  assumes "default_tag_here str = Some n"
  shows "0 < n \<and> n \<le> length str"
proof -
  let ?body = "takeWhile tagChar (drop 2 str)"
  let ?rest = "dropWhile tagChar (drop 2 str)"
  from assms have p: "prefix (js ''<<'') str" and q: "prefix (js ''>>'') ?rest"
    and n: "n = length ?body + 4"
    by (auto simp: default_tag_here_def Let_def split: if_splits)
  from p have "2 \<le> length str" by (auto simp: js_def prefix_def)
  moreover from q have "2 \<le> length ?rest" by (auto simp: js_def prefix_def)
  moreover have "length (drop 2 str) = length ?body + length ?rest"
    by (metis length_append takeWhile_dropWhile_id)
  ultimately show ?thesis using n by simp
qed

lemma default_tag_regexp_ok: "regexp_ok default_tag_regexp"
  unfolding default_tag_regexp_def using default_tag_here_length by (intro regexp_of_ok) blast

lemma default_tag_regexp_never_empty: "never_empty default_tag_regexp"
  unfolding default_tag_regexp_def using default_tag_here_length by (intro regexp_of_never_empty) blast

lemma star_regexp_ok: "regexp_ok (regexp_of (star_here x))"
  by (intro regexp_of_ok) (simp add: star_here_def length_takeWhile_le)

lemma abs_empty: "toAbsolute (js ''/w'') [] (js '':'') = js ''/w''"
  by (simp add: toAbsolute_def tagParts_def split_def split_slashes_def isSlash_def js_def
      path_join_def path_normalize_def normalizeString_def normalize_step_def Let_def)

lemma star_exec0: "exec (regexp_of (star_here 0x78)) (js ''ab'') 0 = (Some (0, 0), 0)"
  by (simp add: exec_def regexp_of_def star_here_def js_def)
lemma star_exec1: "exec (regexp_of (star_here 0x78)) (js ''ab'') 1 = (Some (1, 1), 1)"
  by (simp add: exec_def regexp_of_def star_here_def js_def)
lemma star_exec2: "exec (regexp_of (star_here 0x78)) (js ''ab'') 2 = (Some (2, 2), 2)"
  by (simp add: exec_def regexp_of_def star_here_def js_def)
lemma star_exec3: "exec (regexp_of (star_here 0x78)) (js ''ab'') 3 = (None, 0)"
  by (simp add: exec_def regexp_of_def star_here_def js_def)

lemma matchLoop_step:
  assumes "exec re str li = (Some (index, e), li')"
    and "advance index li' = nxt"
    and "matchLoop re b sep str nxt = Some rest"
    and "m = \<lparr>startOffset = index,
               endOffset = index + length (take (e - index) (drop index str)),
               inner = slice (take (e - index) (drop index str)) 2 (- 2),
               absPath = toAbsolute b (slice (take (e - index) (drop index str)) 2 (- 2)) sep\<rparr>"
  shows "matchLoop re b sep str li = Some (m # rest)"
  using assms by (simp add: matchLoop_more)

lemma star_ab:
  "matchLoop (regexp_of (star_here 0x78)) (js ''/w'') (js '':'') (js ''ab'') 0 =
     Some [\<lparr>startOffset = 0, endOffset = 0, inner = [], absPath = js ''/w''\<rparr>,
           \<lparr>startOffset = 1, endOffset = 1, inner = [], absPath = js ''/w''\<rparr>,
           \<lparr>startOffset = 2, endOffset = 2, inner = [], absPath = js ''/w''\<rparr>]"
proof -
  let ?loop = "matchLoop (regexp_of (star_here 0x78)) (js ''/w'') (js '':'') (js ''ab'')"
  have s3: "?loop 3 = Some []"
    by (rule matchLoop_done [OF star_exec3])
  have s2: "?loop 2 = Some [\<lparr>startOffset = 2, endOffset = 2, inner = [], absPath = js ''/w''\<rparr>]"
    by (rule matchLoop_step [OF star_exec2 _ s3])
      (simp_all add: advance_def slice_def relative_index_def abs_empty)
  have s1: "?loop 1 = Some [\<lparr>startOffset = 1, endOffset = 1, inner = [], absPath = js ''/w''\<rparr>,
                            \<lparr>startOffset = 2, endOffset = 2, inner = [], absPath = js ''/w''\<rparr>]"
    by (rule matchLoop_step [OF star_exec1 _ s2])
      (simp_all add: advance_def slice_def relative_index_def abs_empty)
  show ?thesis
    by (rule matchLoop_step [OF star_exec0 _ s1])
      (simp_all add: advance_def slice_def relative_index_def abs_empty)
qed

lemma exec_advances:
  assumes "regexp_ok re" "exec re str li = (Some (index, e), li')"
  shows "li < advance index li' \<and> (index = e \<longrightarrow> advance index li' = e + 1)"
proof -
  from assms(2) have "li \<le> length str" "re str li = Some (index, e)" "li' = e"
    by (auto simp: exec_def split: if_splits option.splits)
  with assms(1) have "li \<le> index" "index \<le> e"
    unfolding regexp_ok_def by blast+
  then show ?thesis
    using \<open>li' = e\<close> by (simp add: advance_def)
qed

text \<open>
  Claim C5, amended. For every text and every compiled pattern the match loop returns, and
  every occurrence it produces satisfies \<open>startOffset \<le> endOffset \<le> length text\<close>;
  the occurrences are strictly ordered by start offset and none overlaps the next (each
  ends no later than the next starts). When the pattern cannot match the empty string,
  every occurrence also satisfies \<open>startOffset < endOffset\<close>.
\<close>

theorem occurrences_ordered:
  assumes "regexp_ok re"
  shows "\<exists>ms. matchLoop re baseDir sep doc 0 = Some ms
    \<and> (\<forall>m \<in> set ms. startOffset m \<le> endOffset m \<and> endOffset m \<le> length doc)
    \<and> ordered ms
    \<and> (never_empty re \<longrightarrow> (\<forall>m \<in> set ms. startOffset m < endOffset m))"
  using matchLoop_scan [OF assms, of baseDir sep doc 0] by blast

lemma two_tags_exec0:
  "exec default_tag_regexp (js ''<<a>> <<b:c>>'') 0 = (Some (0, 5), 5)"
  by (simp add: exec_def default_tag_regexp_def regexp_of_def default_tag_here_def tagChar_def
      js_def Let_def)

lemma two_tags_exec5:
  "exec default_tag_regexp (js ''<<a>> <<b:c>>'') 5 = (Some (6, 13), 13)"
  by (simp add: exec_def default_tag_regexp_def regexp_of_def default_tag_here_def tagChar_def
      js_def Let_def)

lemma two_tags_exec13:
  "exec default_tag_regexp (js ''<<a>> <<b:c>>'') 13 = (None, 0)"
  by (simp add: exec_def default_tag_regexp_def regexp_of_def default_tag_here_def tagChar_def
      js_def Let_def)

lemmas path_defs = toAbsolute_def tagParts_def split_def split_slashes_def isSlash_def
  path_join_def path_normalize_def normalizeString_def normalize_step_def Let_def

lemma two_tags:
  "matchLoop default_tag_regexp (js ''/w'') (js '':'') (js ''<<a>> <<b:c>>'') 0 =
     Some [\<lparr>startOffset = 0, endOffset = 5, inner = js ''a'', absPath = js ''/w/a''\<rparr>,
           \<lparr>startOffset = 6, endOffset = 13, inner = js ''b:c'', absPath = js ''/w/b/c''\<rparr>]"
proof -
  let ?loop = "matchLoop default_tag_regexp (js ''/w'') (js '':'') (js ''<<a>> <<b:c>>'')"
  have s13: "?loop 13 = Some []"
    by (rule matchLoop_done [OF two_tags_exec13])
  have s5: "?loop 5 = Some [\<lparr>startOffset = 6, endOffset = 13, inner = js ''b:c'',
                              absPath = js ''/w/b/c''\<rparr>]"
    by (rule matchLoop_step [OF two_tags_exec5 _ s13])
      (simp_all add: advance_def slice_def relative_index_def js_def path_defs)
  show ?thesis
    by (rule matchLoop_step [OF two_tags_exec0 _ s5])
      (simp_all add: advance_def slice_def relative_index_def js_def path_defs)
qed

theorem occurrences_ordered_witness:
  "regexp_ok default_tag_regexp
   \<and> never_empty default_tag_regexp
   \<and> matchLoop default_tag_regexp (js ''/w'') (js '':'') (js ''<<a>> <<b:c>>'') 0 =
       Some [\<lparr>startOffset = 0, endOffset = 5, inner = js ''a'', absPath = js ''/w/a''\<rparr>,
             \<lparr>startOffset = 6, endOffset = 13, inner = js ''b:c'', absPath = js ''/w/b/c''\<rparr>]
   \<and> ordered [\<lparr>startOffset = 0, endOffset = 5, inner = js ''a'', absPath = js ''/w/a''\<rparr>,
             \<lparr>startOffset = 6, endOffset = 13, inner = js ''b:c'', absPath = js ''/w/b/c''\<rparr>]
   \<and> (0::nat) < 5 \<and> (5::nat) \<le> 6 \<and> (6::nat) < 13 \<and> 13 \<le> length (js ''<<a>> <<b:c>>'')"
proof -
  from occurrences_ordered [OF default_tag_regexp_ok, of "js ''/w''" "js '':''" "js ''<<a>> <<b:c>>''"]
  obtain ms where ms: "matchLoop default_tag_regexp (js ''/w'') (js '':'') (js ''<<a>> <<b:c>>'') 0 = Some ms"
    and ord: "ordered ms" by blast
  from ms have "ms = [\<lparr>startOffset = 0, endOffset = 5, inner = js ''a'', absPath = js ''/w/a''\<rparr>,
             \<lparr>startOffset = 6, endOffset = 13, inner = js ''b:c'', absPath = js ''/w/b/c''\<rparr>]"
    by (simp add: two_tags)
  with ord show ?thesis
    using default_tag_regexp_ok default_tag_regexp_never_empty two_tags by (simp add: js_def)
qed

text \<open>
  The user pattern \<open>x*\<close> on the text \<open>ab\<close>: three occurrences, each empty, so
  \<open>startOffset < endOffset\<close> fails.
\<close>

theorem empty_occurrence_counterexample:
  "matchLoop (regexp_of (star_here 0x78)) (js ''/w'') (js '':'') (js ''ab'') 0 =
     Some [\<lparr>startOffset = 0, endOffset = 0, inner = [], absPath = js ''/w''\<rparr>,
           \<lparr>startOffset = 1, endOffset = 1, inner = [], absPath = js ''/w''\<rparr>,
           \<lparr>startOffset = 2, endOffset = 2, inner = [], absPath = js ''/w''\<rparr>]
   \<and> \<not> startOffset \<lparr>startOffset = 0, endOffset = 0, inner = [], absPath = js ''/w''\<rparr>
         < endOffset \<lparr>startOffset = 0, endOffset = 0, inner = [], absPath = js ''/w''\<rparr>"
  using star_ab by simp

text \<open>
  Claim C9. For every compiled pattern, also one that matches the empty string, the match
  loop over a text returns, after at most \<open>length text + 1\<close> matches. Every match moves
  the scan position strictly forward; after a match of length zero the position is one
  beyond the match.
\<close>

theorem scan_terminates:
  assumes "regexp_ok re"
  shows "(\<exists>ms. matchLoop re baseDir sep doc 0 = Some ms \<and> length ms \<le> length doc + 1)
    \<and> (\<forall>li index e li'. exec re doc li = (Some (index, e), li')
          \<longrightarrow> li < advance index li' \<and> (index = e \<longrightarrow> advance index li' = e + 1))"
  using matchLoop_scan [OF assms, of baseDir sep doc 0] exec_advances [OF assms]
  by (intro conjI allI impI) auto

theorem scan_terminates_witness:
  "regexp_ok (regexp_of (star_here 0x78))
   \<and> matchLoop (regexp_of (star_here 0x78)) (js ''/w'') (js '':'') (js ''ab'') 0 =
       Some [\<lparr>startOffset = 0, endOffset = 0, inner = [], absPath = js ''/w''\<rparr>,
             \<lparr>startOffset = 1, endOffset = 1, inner = [], absPath = js ''/w''\<rparr>,
             \<lparr>startOffset = 2, endOffset = 2, inner = [], absPath = js ''/w''\<rparr>]
   \<and> exec (regexp_of (star_here 0x78)) (js ''ab'') 0 = (Some (0, 0), 0)
   \<and> 0 < advance 0 0 \<and> advance 0 0 = 0 + 1"
proof -
  from scan_terminates [OF star_regexp_ok [of "0x78"], where baseDir = "js ''/w''"
      and sep = "js '':''" and doc = "js ''ab''"] star_exec0
  have "0 < advance 0 0 \<and> advance 0 0 = 0 + 1" by blast
  then show ?thesis using star_regexp_ok star_ab star_exec0 by simp
qed

section \<open>Properties of path resolution\<close>










































































section \<open>Properties of pass completion\<close>





lemma same_rendering_read: "same_rendering s (snd (readFileTruncated fs p mb s))"
  by (simp add: same_rendering_def readFileTruncated_def Let_def split: option.splits)




lemma decorate_push:
  "decorate fs cfg it (acc, s) =
     (if nullish (cfg_onlyHighlightExistingPaths cfg) True \<and> \<not> pathExists fs (absPath it)
      then (acc, s)
      else if pathExists fs (absPath it)
      then (pushDecorations cfg it True
              (fst (readFileTruncated fs (absPath it) (configuredMaxBytes cfg)
                      (retainWatcher (absPath it) s)))
              (acc\<lparr>needed := set_add (absPath it) (needed acc)\<rparr>),
            snd (readFileTruncated fs (absPath it) (configuredMaxBytes cfg)
                   (retainWatcher (absPath it) s)))
      else (pushDecorations cfg it False [] acc, s))"
  by (simp add: decorate_def pushDecorations_def Let_def)

lemma resume_exists:
  "resume fs cfg it AwaitExists (acc, s) =
     (if nullish (cfg_onlyHighlightExistingPaths cfg) True \<and> \<not> pathExists fs (absPath it)
      then (Settled, acc, s)
      else if pathExists fs (absPath it)
      then (AwaitStat, acc\<lparr>needed := set_add (absPath it) (needed acc)\<rparr>,
            retainWatcher (absPath it) s)
      else (Settled, pushDecorations cfg it False [] acc, s))"
  by (simp add: resume_def Let_def)

lemma resume_settled: "resume fs cfg it Settled (acc, s) = (Settled, acc, s)"
  by (simp add: resume_def)

lemma resume_text:
  "resume fs cfg it (AwaitText t) (acc, s) = (Settled, pushDecorations cfg it True t acc, s)"
  by (simp add: resume_def)

lemma resume_stat:
  "resume fs cfg it AwaitStat (acc, s) =
     (case stat fs (absPath it) of
        None \<Rightarrow> (AwaitText [], acc, s)
      | Some st \<Rightarrow>
          (case cacheLookup (CACHE s) (absPath it) (mtimeMs st) of
             Some hit \<Rightarrow> (AwaitText hit, acc, s)
           | None \<Rightarrow> (AwaitRead (mtimeMs st), acc, s)))"
  by (simp add: resume_def)

lemma resume_read:
  "resume fs cfg it (AwaitRead m) (acc, s) =
     (case readFile fs (absPath it) of
        None \<Rightarrow> (AwaitText [], acc, s)
      | Some buf \<Rightarrow>
          (AwaitText (toString_utf8 (truncateBuffer (configuredMaxBytes cfg) buf)), acc,
           s\<lparr>CACHE := (CACHE s)(absPath it \<mapsto>
              \<lparr>cached_mtimeMs = m,
               cached_text = toString_utf8 (truncateBuffer (configuredMaxBytes cfg) buf)\<rparr>)\<rparr>))"
  by (simp add: resume_def Let_def split: option.splits)

text \<open>
  The three resumptions inside \<open>readFileTruncated\<close>, answered by one file system with
  nothing running in between, are the read as a whole.
\<close>

lemma resume_readFileTruncated:
  assumes "resume fs cfg it AwaitStat (acc, s) = r1"
    and "resume fs cfg it (fst r1) (snd r1) = r2"
    and "resume fs cfg it (fst r2) (snd r2) = r3"
  shows "r3 = (Settled,
      pushDecorations cfg it True (fst (readFileTruncated fs (absPath it) (configuredMaxBytes cfg) s)) acc,
      snd (readFileTruncated fs (absPath it) (configuredMaxBytes cfg) s))"
proof (cases "stat fs (absPath it)")
  case None
  then have "r1 = (AwaitText [], acc, s)" using assms(1) by (simp add: resume_stat)
  then have "r2 = (Settled, pushDecorations cfg it True [] acc, s)"
    using assms(2) by (simp add: resume_text)
  then have "r3 = (Settled, pushDecorations cfg it True [] acc, s)"
    using assms(3) by (simp add: resume_settled)
  then show ?thesis by (simp add: read_stat_fails [OF None])
next
  case (Some st)
  show ?thesis
  proof (cases "cacheLookup (CACHE s) (absPath it) (mtimeMs st)")
    case hit: (Some t)
    then have "r1 = (AwaitText t, acc, s)" using assms(1) Some by (simp add: resume_stat)
    then have "r2 = (Settled, pushDecorations cfg it True t acc, s)"
      using assms(2) by (simp add: resume_text)
    then have "r3 = (Settled, pushDecorations cfg it True t acc, s)"
      using assms(3) by (simp add: resume_settled)
    then show ?thesis by (simp add: read_hit [OF Some hit])
  next
    case miss: None
    then have r1: "r1 = (AwaitRead (mtimeMs st), acc, s)"
      using assms(1) Some by (simp add: resume_stat)
    show ?thesis
    proof (cases "readFile fs (absPath it)")
      case None
      then have "r2 = (AwaitText [], acc, s)" using assms(2) r1 by (simp add: resume_read)
      then have "r3 = (Settled, pushDecorations cfg it True [] acc, s)"
        using assms(3) by (simp add: resume_text)
      then show ?thesis by (simp add: read_readFile_fails [OF Some miss None])
    next
      case buf: (Some buf)
      then have "r2 = (AwaitText (toString_utf8 (truncateBuffer (configuredMaxBytes cfg) buf)), acc,
           s\<lparr>CACHE := (CACHE s)(absPath it \<mapsto>
              \<lparr>cached_mtimeMs = mtimeMs st,
               cached_text = toString_utf8 (truncateBuffer (configuredMaxBytes cfg) buf)\<rparr>)\<rparr>)"
        using assms(2) r1 by (simp add: resume_read)
      then have "r3 = (Settled,
           pushDecorations cfg it True (toString_utf8 (truncateBuffer (configuredMaxBytes cfg) buf)) acc,
           s\<lparr>CACHE := (CACHE s)(absPath it \<mapsto>
              \<lparr>cached_mtimeMs = mtimeMs st,
               cached_text = toString_utf8 (truncateBuffer (configuredMaxBytes cfg) buf)\<rparr>)\<rparr>)"
        using assms(3) by (simp add: resume_text)
      then show ?thesis by (simp add: read_miss [OF Some miss buf])
    qed
  qed
qed

text \<open>
  The four resumptions of a callback, answered by one file system with nothing running in
  between, are \<open>decorate\<close>.
\<close>

lemma resume_decorate:
  assumes "resume fs cfg it AwaitExists (acc, s) = r1"
    and "resume fs cfg it (fst r1) (snd r1) = r2"
    and "resume fs cfg it (fst r2) (snd r2) = r3"
    and "resume fs cfg it (fst r3) (snd r3) = r4"
  shows "r4 = (Settled, decorate fs cfg it (acc, s))"
proof (cases "pathExists fs (absPath it)")
  case True
  then have r1: "r1 = (AwaitStat, acc\<lparr>needed := set_add (absPath it) (needed acc)\<rparr>,
      retainWatcher (absPath it) s)"
    using assms(1) by (simp add: resume_exists)
  have "resume fs cfg it AwaitStat (acc\<lparr>needed := set_add (absPath it) (needed acc)\<rparr>,
      retainWatcher (absPath it) s) = r2"
    using assms(2) r1 by simp
  from resume_readFileTruncated [OF this assms(3) assms(4)] True show ?thesis
    by (simp add: decorate_push)
next
  case False
  then have r1: "r1 = (Settled, decorate fs cfg it (acc, s))"
    using assms(1) by (auto simp: resume_exists decorate_push)
  obtain acc' s' where d: "decorate fs cfg it (acc, s) = (acc', s')"
    by (cases "decorate fs cfg it (acc, s)")
  from r1 d assms(2) have "r2 = (Settled, acc', s')" by (simp add: resume_settled)
  with assms(3) have "r3 = (Settled, acc', s')" by (simp add: resume_settled)
  with assms(4) have "r4 = (Settled, acc', s')" by (simp add: resume_settled)
  with d show ?thesis by simp
qed



lemma resumeCallback_pass: "run_pass (fst (resumeCallback fs i (r, s))) = run_pass r"
  by (simp add: resumeCallback_def Let_def)














lemma one_tag_exec0: "exec default_tag_regexp (js ''<<a>>'') 0 = (Some (0, 5), 5)"
  by (simp add: exec_def default_tag_regexp_def regexp_of_def default_tag_here_def tagChar_def
      js_def Let_def)

lemma one_tag_exec5: "exec default_tag_regexp (js ''<<a>>'') 5 = (None, 0)"
  by (simp add: exec_def default_tag_regexp_def regexp_of_def default_tag_here_def tagChar_def
      js_def Let_def)

lemma one_tag:
  "matchLoop default_tag_regexp (js ''/w'') (js '':'') (js ''<<a>>'') 0 = Some [tag_a]"
  unfolding tag_a_def
  by (rule matchLoop_step [OF one_tag_exec0 _ matchLoop_done [OF one_tag_exec5]])
    (simp_all add: advance_def slice_def relative_index_def js_def path_defs)



lemma default_pattern:
  "safeRegex compile_default (or_default (cfg_pattern default_config) default_pattern_source)
     = default_tag_regexp"
  by (simp add: safeRegex_def compile_default_def or_default_def default_config_def
      default_pattern_source_def js_def)

lemma default_separator: "or_default (cfg_pathSeparator default_config) (js '':'') = js '':''"
  by (simp add: or_default_def default_config_def)

lemma begin_a:
  "updateDecorations_begin compile_default default_config 0 (js ''/w'') (js ''<<a>>'') = Some pass_a"
  by (simp add: updateDecorations_begin_def default_pattern default_separator one_tag pass_a_def)


lemmas state_defs = activate_def createDecorations_def or_default_def nullish_def default_config_def
  configuredMaxBytes_def

lemma hello_exists: "pathExists hello_fs (js ''/w/a'')"
  by (simp add: pathExists_def hello_stat regular_def)

lemma replace_Hello: "replaceNewlines (js ''Hello'') joiner = js ''Hello''"
  by (simp add: replaceNewlines_def js_def)


lemma small_pattern:
  "safeRegex compile_default (or_default (cfg_pattern small_limit_config) default_pattern_source)
     = default_tag_regexp"
  by (simp add: safeRegex_def compile_default_def or_default_def default_config_def
      small_limit_config_def default_pattern_source_def js_def)

lemma small_separator: "or_default (cfg_pathSeparator small_limit_config) (js '':'') = js '':''"
  by (simp add: or_default_def default_config_def small_limit_config_def)

lemma begin_a_small:
  "updateDecorations_begin compile_default small_limit_config 0 (js ''/w'') (js ''<<a>>'')
     = Some pass_a_small"
  by (simp add: updateDecorations_begin_def small_pattern small_separator one_tag pass_a_small_def)

lemma utf8_He: "toString_utf8 (truncateBuffer 2 (ascii ''Hello'')) = js ''He''"
  by (simp add: truncateBuffer_def subarray_def relative_index_def toString_utf8_def utf16_def
      ascii_def js_def)

lemmas run_defs = resumeCallback_def resume_def pushDecorations_def startPass_def ready_def
  applyPass_def applyPlan_def setDecorations_def releaseUnneeded_def releaseWatcher_def
  retainWatcher_def pathExists_def cacheLookup_def truncateBuffer_def set_has_def set_add_def
  emptyAcc_def regular_def Let_def

lemma sys_run_append:
  "sys_run compile (xs @ ys) sys = Option.bind (sys_run compile xs sys) (sys_run compile ys)"
  by (induction xs arbitrary: sys) (auto split: Option.bind_split)

lemma sys_run_Cons:
  "sys_step compile ev sys = Some mid \<Longrightarrow> sys_run compile evs mid = res
   \<Longrightarrow> sys_run compile (ev # evs) sys = res"
  by simp

lemma step_begin:
  "updateDecorations_begin compile cfg editor baseDir doc = Some ps
   \<Longrightarrow> sys_step compile (Begin cfg editor baseDir doc) sys
       = Some (sys\<lparr>sys_passes := sys_passes sys @ [startPass ps]\<rparr>)"
  by simp

lemma first_pass_rest:
  "sys_run compile
     [Resume 0 0 hello_fs, Resume 0 0 hello_fs, Resume 0 0 hello_fs, Resume 0 0 hello_fs, Apply 0]
     \<lparr>sys_state = activate default_config, sys_passes = [startPass pass_a]\<rparr> =
     Some \<lparr>sys_state =
       \<lparr>WATCHERS = [(js ''/w/a'', \<lparr>watcher = 2, refs = 1\<rparr>)],
        CACHE = [js ''/w/a'' \<mapsto> \<lparr>cached_mtimeMs = 1, cached_text = js ''Hello''\<rparr>],
        tagDecoInline = 0, tagDecoHide = 1, nextHandle = 3, disposed = [],
        afterColor = [0 \<mapsto> js ''#888''],
        decorations = [(0, 0) \<mapsto> [hello_inline],
                       (0, 1) \<mapsto> [hello_inline\<lparr>contentText := None\<rparr>]]\<rparr>,
      sys_passes =
        [\<lparr>run_pass = pass_a, run_callbacks = [Settled],
          run_acc = \<lparr>needed = [js ''/w/a''], inlineDecos = [hello_inline],
                     hideDecos = [hello_inline\<lparr>contentText := None\<rparr>]\<rparr>,
          run_applied = True\<rparr>]\<rparr>"
  by (simp add: run_defs state_defs pass_a_def tag_a_def hello_stat
      hello_readFile length_ascii utf8_Hello replace_Hello hello_inline_def)

lemma first_pass_run:
  "sys_run compile_default first_pass_events (start default_config) =
     Some \<lparr>sys_state =
       \<lparr>WATCHERS = [(js ''/w/a'', \<lparr>watcher = 2, refs = 1\<rparr>)],
        CACHE = [js ''/w/a'' \<mapsto> \<lparr>cached_mtimeMs = 1, cached_text = js ''Hello''\<rparr>],
        tagDecoInline = 0, tagDecoHide = 1, nextHandle = 3, disposed = [],
        afterColor = [0 \<mapsto> js ''#888''],
        decorations = [(0, 0) \<mapsto> [hello_inline],
                       (0, 1) \<mapsto> [hello_inline\<lparr>contentText := None\<rparr>]]\<rparr>,
      sys_passes =
        [\<lparr>run_pass = pass_a, run_callbacks = [Settled],
          run_acc = \<lparr>needed = [js ''/w/a''], inlineDecos = [hello_inline],
                     hideDecos = [hello_inline\<lparr>contentText := None\<rparr>]\<rparr>,
          run_applied = True\<rparr>]\<rparr>"
  unfolding first_pass_events_def
  by (rule sys_run_Cons [OF _ first_pass_rest]) (simp add: begin_a start_def)

lemma config_changed:
  "sys_step compile (Configure True small_limit_config)
     \<lparr>sys_state =
       \<lparr>WATCHERS = [(js ''/w/a'', \<lparr>watcher = 2, refs = 1\<rparr>)],
        CACHE = [js ''/w/a'' \<mapsto> \<lparr>cached_mtimeMs = 1, cached_text = js ''Hello''\<rparr>],
        tagDecoInline = 0, tagDecoHide = 1, nextHandle = 3, disposed = [],
        afterColor = [0 \<mapsto> js ''#888''],
        decorations = [(0, 0) \<mapsto> [hello_inline],
                       (0, 1) \<mapsto> [hello_inline\<lparr>contentText := None\<rparr>]]\<rparr>,
      sys_passes = ps\<rparr> =
     Some \<lparr>sys_state =
       \<lparr>WATCHERS = [(js ''/w/a'', \<lparr>watcher = 2, refs = 1\<rparr>)],
        CACHE = [js ''/w/a'' \<mapsto> \<lparr>cached_mtimeMs = 1, cached_text = js ''Hello''\<rparr>],
        tagDecoInline = 3, tagDecoHide = 4, nextHandle = 5, disposed = [0, 1],
        afterColor = [0 \<mapsto> js ''#888'', 3 \<mapsto> js ''#888''],
        decorations = [(0, 0) \<mapsto> [hello_inline],
                       (0, 1) \<mapsto> [hello_inline\<lparr>contentText := None\<rparr>]]\<rparr>,
      sys_passes = ps\<rparr>"
  by (simp add: onDidChangeConfiguration_def disposeDecorations_def createDecorations_def
      or_default_def small_limit_config_def default_config_def)

lemma configured_run:
  "sys_run compile_default (first_pass_events @ [Configure True small_limit_config])
     (start default_config) =
     Some \<lparr>sys_state =
       \<lparr>WATCHERS = [(js ''/w/a'', \<lparr>watcher = 2, refs = 1\<rparr>)],
        CACHE = [js ''/w/a'' \<mapsto> \<lparr>cached_mtimeMs = 1, cached_text = js ''Hello''\<rparr>],
        tagDecoInline = 3, tagDecoHide = 4, nextHandle = 5, disposed = [0, 1],
        afterColor = [0 \<mapsto> js ''#888'', 3 \<mapsto> js ''#888''],
        decorations = [(0, 0) \<mapsto> [hello_inline],
                       (0, 1) \<mapsto> [hello_inline\<lparr>contentText := None\<rparr>]]\<rparr>,
      sys_passes =
        [\<lparr>run_pass = pass_a, run_callbacks = [Settled],
          run_acc = \<lparr>needed = [js ''/w/a''], inlineDecos = [hello_inline],
                     hideDecos = [hello_inline\<lparr>contentText := None\<rparr>]\<rparr>,
          run_applied = True\<rparr>]\<rparr>"
  unfolding sys_run_append first_pass_run
  by (simp only: Option.bind.simps sys_run.simps config_changed)

lemma second_pass_rest:
  "map_option (\<lambda>sys. (map run_pass (sys_passes sys), decorations (sys_state sys) (0, 3)))
     (sys_run compile [Resume 1 0 hello_fs, Resume 1 0 hello_fs, Resume 1 0 hello_fs, Apply 1]
       \<lparr>sys_state =
         \<lparr>WATCHERS = [(js ''/w/a'', \<lparr>watcher = 2, refs = 1\<rparr>)],
          CACHE = [js ''/w/a'' \<mapsto> \<lparr>cached_mtimeMs = 1, cached_text = js ''Hello''\<rparr>],
          tagDecoInline = 3, tagDecoHide = 4, nextHandle = 5, disposed = [0, 1],
          afterColor = [0 \<mapsto> js ''#888'', 3 \<mapsto> js ''#888''],
          decorations = [(0, 0) \<mapsto> [hello_inline],
                         (0, 1) \<mapsto> [hello_inline\<lparr>contentText := None\<rparr>]]\<rparr>,
        sys_passes =
          [\<lparr>run_pass = pass_a, run_callbacks = [Settled],
            run_acc = \<lparr>needed = [js ''/w/a''], inlineDecos = [hello_inline],
                       hideDecos = [hello_inline\<lparr>contentText := None\<rparr>]\<rparr>,
            run_applied = True\<rparr>,
           startPass pass_a_small]\<rparr>)
     = Some ([pass_a, pass_a_small], Some [hello_inline])"
  by (simp add: run_defs state_defs pass_a_small_def small_limit_config_def tag_a_def hello_stat
      hello_readFile length_ascii utf8_Hello replace_Hello hello_inline_def)

lemma sys_run_append_Some:
  "sys_run compile xs sys = Some mid \<Longrightarrow> sys_run compile (xs @ ys) sys = sys_run compile ys mid"
  by (simp add: sys_run_append)

lemma second_pass_run:
  "map_option (\<lambda>sys. (map run_pass (sys_passes sys), decorations (sys_state sys) (0, 3)))
     (sys_run compile_default
        (first_pass_events @ [Configure True small_limit_config] @ second_pass_events)
        (start default_config))
     = Some ([pass_a, pass_a_small], Some [hello_inline])"
proof -
  have split: "first_pass_events @ [Configure True small_limit_config] @ second_pass_events
      = (first_pass_events @ [Configure True small_limit_config]) @ second_pass_events"
    by simp
  have one: "sys_run compile_default
        (first_pass_events @ [Configure True small_limit_config] @ second_pass_events)
        (start default_config)
      = sys_run compile_default second_pass_events
       \<lparr>sys_state =
         \<lparr>WATCHERS = [(js ''/w/a'', \<lparr>watcher = 2, refs = 1\<rparr>)],
          CACHE = [js ''/w/a'' \<mapsto> \<lparr>cached_mtimeMs = 1, cached_text = js ''Hello''\<rparr>],
          tagDecoInline = 3, tagDecoHide = 4, nextHandle = 5, disposed = [0, 1],
          afterColor = [0 \<mapsto> js ''#888'', 3 \<mapsto> js ''#888''],
          decorations = [(0, 0) \<mapsto> [hello_inline],
                         (0, 1) \<mapsto> [hello_inline\<lparr>contentText := None\<rparr>]]\<rparr>,
        sys_passes =
          [\<lparr>run_pass = pass_a, run_callbacks = [Settled],
            run_acc = \<lparr>needed = [js ''/w/a''], inlineDecos = [hello_inline],
                       hideDecos = [hello_inline\<lparr>contentText := None\<rparr>]\<rparr>,
            run_applied = True\<rparr>]\<rparr>"
    unfolding split by (rule sys_run_append_Some [OF configured_run])
  have two: "sys_run compile_default second_pass_events
       \<lparr>sys_state =
         \<lparr>WATCHERS = [(js ''/w/a'', \<lparr>watcher = 2, refs = 1\<rparr>)],
          CACHE = [js ''/w/a'' \<mapsto> \<lparr>cached_mtimeMs = 1, cached_text = js ''Hello''\<rparr>],
          tagDecoInline = 3, tagDecoHide = 4, nextHandle = 5, disposed = [0, 1],
          afterColor = [0 \<mapsto> js ''#888'', 3 \<mapsto> js ''#888''],
          decorations = [(0, 0) \<mapsto> [hello_inline],
                         (0, 1) \<mapsto> [hello_inline\<lparr>contentText := None\<rparr>]]\<rparr>,
        sys_passes =
          [\<lparr>run_pass = pass_a, run_callbacks = [Settled],
            run_acc = \<lparr>needed = [js ''/w/a''], inlineDecos = [hello_inline],
                       hideDecos = [hello_inline\<lparr>contentText := None\<rparr>]\<rparr>,
            run_applied = True\<rparr>]\<rparr>
      = sys_run compile_default [Resume 1 0 hello_fs, Resume 1 0 hello_fs, Resume 1 0 hello_fs, Apply 1]
       \<lparr>sys_state =
         \<lparr>WATCHERS = [(js ''/w/a'', \<lparr>watcher = 2, refs = 1\<rparr>)],
          CACHE = [js ''/w/a'' \<mapsto> \<lparr>cached_mtimeMs = 1, cached_text = js ''Hello''\<rparr>],
          tagDecoInline = 3, tagDecoHide = 4, nextHandle = 5, disposed = [0, 1],
          afterColor = [0 \<mapsto> js ''#888'', 3 \<mapsto> js ''#888''],
          decorations = [(0, 0) \<mapsto> [hello_inline],
                         (0, 1) \<mapsto> [hello_inline\<lparr>contentText := None\<rparr>]]\<rparr>,
        sys_passes =
          [\<lparr>run_pass = pass_a, run_callbacks = [Settled],
            run_acc = \<lparr>needed = [js ''/w/a''], inlineDecos = [hello_inline],
                       hideDecos = [hello_inline\<lparr>contentText := None\<rparr>]\<rparr>,
            run_applied = True\<rparr>,
           startPass pass_a_small]\<rparr>"
    unfolding second_pass_events_def
    by (rule sys_run_Cons [OF _ refl]) (simp add: begin_a_small)
  show ?thesis by (simp only: one) (simp only: two second_pass_rest)
qed












text \<open>
  Claim C8 at a failing input. \<open>/w/a\<close> holds the five bytes \<open>Hello\<close> and does not
  change. A pass under the default limit shows \<open>Hello\<close>. The limit is then set to 2:
  the configuration handler disposes the decoration types 0 and 1 and creates new ones, and
  the next pass, run with the limit 2, still shows \<open>Hello\<close>, from the cache. A read of
  the same file with the limit 2 that is not answered from the cache gives \<open>He\<close>.
\<close>

theorem maxBytes_change_keeps_old_text:
  "configuredMaxBytes small_limit_config = 2
   \<and> updateDecorations_begin compile_default small_limit_config 0 (js ''/w'') (js ''<<a>>'')
       = Some pass_a_small
   \<and> map_option (\<lambda>sys. tagDecoInline (sys_state sys))
        (sys_run compile_default (first_pass_events @ [Configure True small_limit_config])
           (start default_config)) = Some 3
   \<and> map_option (\<lambda>sys. disposed (sys_state sys))
        (sys_run compile_default (first_pass_events @ [Configure True small_limit_config])
           (start default_config)) = Some [0, 1]
   \<and> map_option (\<lambda>sys. (map run_pass (sys_passes sys), decorations (sys_state sys) (0, 3)))
        (sys_run compile_default
           (first_pass_events @ [Configure True small_limit_config] @ second_pass_events)
           (start default_config))
       = Some ([pass_a, pass_a_small], Some [hello_inline])
   \<and> contentText hello_inline = Some (js ''Hello'')
   \<and> fst (readFileTruncated hello_fs (js ''/w/a'') 2 (activate default_config)) = js ''He''"
proof -
  have lim: "configuredMaxBytes small_limit_config = 2"
    by (simp add: configuredMaxBytes_def nullish_def small_limit_config_def)
  have fresh: "fst (readFileTruncated hello_fs (js ''/w/a'') 2 (activate default_config)) = js ''He''"
    using read_miss_text [where mb = 2 and s = "activate default_config",
        OF hello_stat lookup_empty hello_readFile]
    by (simp add: utf8_He)
  have shown: "contentText hello_inline = Some (js ''Hello'')" by (simp add: hello_inline_def)
  show ?thesis
    using lim begin_a_small second_pass_run fresh shown
    by (simp add: configured_run)
qed

end
